theory Spec2Isabelle
  imports Complex_Main
begin

section \<open>Python values and built-ins used by query\_data.py\<close>

text \<open>
  Text is a \<open>string\<close> holding the UTF-8 bytes of a Python \<open>str\<close>. Splitting at an ASCII
  character, testing for an ASCII prefix or substring, removing an ASCII substring and
  joining are the same on the bytes as on the characters. \<open>str.lower()\<close> and
  \<open>str.strip()\<close> follow the Unicode tables of the Python runtime; they are not defined
  here but taken from the environment (\<open>lower env\<close>, \<open>strip env\<close>).
\<close>

text \<open>What \<open>json.load\<close> can yield, and what \<open>self.plan\<close> and \<open>self.preferences\<close> hold.
  A dict is an association list in insertion order.\<close>

datatype json =
  JNull
  | JBool bool
  | JNum real
  | JStr string
  | JArr "json list"
  | JObj "(string \<times> json) list"

datatype error =
  KeyError
  | TypeError
  | AttributeError
  | ServiceError
  | LoadError

type_synonym 'a dict = "(string \<times> 'a) list"

text \<open>\<open>d[k] = v\<close>: an existing key keeps its place, a new key goes last.\<close>

primrec setitem :: "string \<Rightarrow> 'a \<Rightarrow> 'a dict \<Rightarrow> 'a dict" where
  "setitem k v [] = [(k, v)]"
| "setitem k v (p # ps) = (if fst p = k then (k, v) # ps else p # setitem k v ps)"

text \<open>\<open>d[k]\<close>: raises KeyError on a missing key.\<close>

definition getitem :: "'a dict \<Rightarrow> string \<Rightarrow> error + 'a" where
  "getitem d k = (case map_of d k of None \<Rightarrow> Inl KeyError | Some v \<Rightarrow> Inr v)"

text \<open>\<open>d.get(k, default)\<close>.\<close>

definition get_default :: "'a dict \<Rightarrow> string \<Rightarrow> 'a \<Rightarrow> 'a" where
  "get_default d k dflt = (case map_of d k of None \<Rightarrow> dflt | Some v \<Rightarrow> v)"

definition ebind :: "error + 'a \<Rightarrow> ('a \<Rightarrow> error + 'b) \<Rightarrow> error + 'b" where
  "ebind m f = (case m of Inl e \<Rightarrow> Inl e | Inr x \<Rightarrow> f x)"

text \<open>Truth value of a Python object in a condition.\<close>

fun truthy :: "json \<Rightarrow> bool" where
  "truthy JNull = False"
| "truthy (JBool b) = b"
| "truthy (JNum r) = (r \<noteq> 0)"
| "truthy (JStr s) = (s \<noteq> [])"
| "truthy (JArr xs) = (xs \<noteq> [])"
| "truthy (JObj d) = (d \<noteq> [])"

text \<open>\<open>for x in v\<close>: a list yields its elements, a string its characters (here one item
  per byte: only whether there is an item is ever used, the first one makes the loop
  body raise), a dict its keys; anything else is not iterable.\<close>

fun iterate :: "json \<Rightarrow> error + json list" where
  "iterate (JArr xs) = Inr xs"
| "iterate (JStr s) = Inr (map (\<lambda>c. JStr [c]) s)"
| "iterate (JObj d) = Inr (map (\<lambda>p. JStr (fst p)) d)"
| "iterate v = Inl TypeError"

subsection \<open>str methods\<close>

fun startswith :: "string \<Rightarrow> string \<Rightarrow> bool" where
  "startswith s [] = True"
| "startswith [] (p # ps) = False"
| "startswith (c # cs) (p # ps) = (c = p \<and> startswith cs ps)"

text \<open>\<open>sub in s\<close>.\<close>

fun contains :: "string \<Rightarrow> string \<Rightarrow> bool" where
  "contains [] sub = (sub = [])"
| "contains (c # cs) sub = (startswith (c # cs) sub \<or> contains cs sub)"

text \<open>\<open>s.split(sep)\<close> for a one-character separator: never an empty list.\<close>

fun split :: "char \<Rightarrow> string \<Rightarrow> string list" where
  "split sep [] = [[]]"
| "split sep (c # cs) =
     (if c = sep then [] # split sep cs
      else (case split sep cs of [] \<Rightarrow> [[c]] | w # ws \<Rightarrow> (c # w) # ws))"

text \<open>\<open>s.replace(old, '')\<close>: every occurrence of \<open>old\<close>, found left to right without
  overlap, is removed; an empty \<open>old\<close> changes nothing.\<close>

function remove_all :: "string \<Rightarrow> string \<Rightarrow> string" where
  "remove_all old [] = []"
| "remove_all old (c # cs) =
     (if old \<noteq> [] \<and> startswith (c # cs) old
      then remove_all old (drop (length old) (c # cs))
      else c # remove_all old cs)"
  by pat_completeness auto
termination
  by (relation "measure (\<lambda>(old, s). length s)") (auto simp: neq_Nil_conv)

text \<open>\<open>sep.join(parts)\<close>.\<close>

fun join :: "string \<Rightarrow> string list \<Rightarrow> string" where
  "join sep [] = []"
| "join sep [x] = x"
| "join sep (x # y # ys) = x @ sep @ join sep (y # ys)"

text \<open>\<open>str(n)\<close> for a length.\<close>

definition digit_char :: "nat \<Rightarrow> char" where
  "digit_char d = char_of (48 + d)"

function str_nat :: "nat \<Rightarrow> string" where
  "str_nat n = (if n < 10 then [digit_char n] else str_nat (n div 10) @ [digit_char (n mod 10)])"
  by pat_completeness auto
termination
  by (relation "measure id") auto

section \<open>The external services\<close>

text \<open>
  A prompt is named by its template and the values formatted into it; the fixed text
  of the templates is not part of the model. \<open>json.dumps\<close> of a value is carried as
  the value.
\<close>

datatype prompt =
  ClassificationPrompt string
  | ExtractionPrompt string
  | SummaryPrompt json
  | DayPlanPrompt json
  | InitialPrompt string string string string string json
  | FollowUpPrompt string string string string string json

datatype call =
  Invoke prompt
  | Search string nat

text \<open>
  \<open>complete env n p\<close> is the \<open>content\<close> of \<open>self.model.invoke(p)\<close> when this is external
  call number \<open>n\<close> of the session (the model may answer one prompt differently each
  time), \<open>retrieve env q k\<close> is \<open>self.db.similarity_search_with_relevance_scores(q, k=k)\<close>
  as (page content, score) pairs, \<open>clock env\<close> is \<open>datetime.now().isoformat()\<close> and
  \<open>repr env\<close> formats a value that is not a string inside an f-string. A service that
  raises returns \<open>Inl\<close>. \<open>lower env\<close> and \<open>strip env\<close> are \<open>str.lower()\<close> and \<open>str.strip()\<close>
  of the runtime.
\<close>

record env =
  complete :: "nat \<Rightarrow> prompt \<Rightarrow> error + string"
  retrieve :: "string \<Rightarrow> nat \<Rightarrow> error + (string \<times> real) list"
  clock :: string
  repr :: "json \<Rightarrow> string"
  lower :: "string \<Rightarrow> string"
  strip :: "string \<Rightarrow> string"

section \<open>NYCGuide\<close>

type_synonym classification = "string dict"

text \<open>What opening and \<open>json.load\<close>-ing a file gives: FileNotFoundError, JSONDecodeError,
  any other exception (the file is not UTF-8, holds a number too long to convert, is a
  directory, may not be read) or the value. \<open>json.dump\<close> leaves a file that loads as the
  value dumped.\<close>

datatype stored = Missing | Corrupt | Unreadable | Content json

text \<open>What \<open>print\<close> wrote: a text, or a text followed by \<open>str(e)\<close> of an exception.\<close>

datatype printout = Line string | Report string error

text \<open>The object's attributes, the two files it owns, the external calls made and the
  lines printed so far.\<close>

record guide =
  last_response :: "string option"
  last_context :: "string option"
  last_classification :: "classification option"
  plan :: json
  preferences :: json
  preferences_file :: stored
  plan_file :: stored
  calls :: "call list"
  printed :: "printout list"

definition print_line :: "guide \<Rightarrow> string \<Rightarrow> guide" where
  "print_line g s = g\<lparr>printed := printed g @ [Line s]\<rparr>"

definition print_error :: "guide \<Rightarrow> string \<Rightarrow> error \<Rightarrow> guide" where
  "print_error g s e = g\<lparr>printed := printed g @ [Report s e]\<rparr>"

definition invoke :: "env \<Rightarrow> guide \<Rightarrow> prompt \<Rightarrow> (error + string) \<times> guide" where
  "invoke env g p = (complete env (length (calls g)) p, g\<lparr>calls := calls g @ [Invoke p]\<rparr>)"

definition search :: "env \<Rightarrow> guide \<Rightarrow> string \<Rightarrow> nat \<Rightarrow> (error + (string \<times> real) list) \<times> guide" where
  "search env g q k = (retrieve env q k, g\<lparr>calls := calls g @ [Search q k]\<rparr>)"

subsection \<open>classify\_query\<close>

text \<open>Lines 297-329. The dict literal of lines 303-311, the body of the loop over the lines
  of the response (lines 314-327), and the whole parse of \<open>response.content\<close>.\<close>

definition default_classification :: classification where
  "default_classification =
     [(''category'', ''''), (''intent'', ''''), (''key_terms'', ''''),
      (''is_preference'', ''no''), (''preference_type'', ''none''),
      (''preference_value'', ''none''), (''is_generic_food_question'', ''none'')]"

definition classify_line :: "env \<Rightarrow> classification \<Rightarrow> string \<Rightarrow> classification" where
  "classify_line env c line =
     (if startswith line ''Category:'' then
        setitem ''category'' (strip env (remove_all ''Category:'' line)) c
      else if startswith line ''Intent:'' then
        setitem ''intent'' (strip env (remove_all ''Intent:'' line)) c
      else if startswith line ''Key Terms:'' then
        setitem ''key_terms'' (strip env (remove_all ''Key Terms:'' line)) c
      else if startswith line ''Is Preference:'' then
        setitem ''is_preference'' (lower env (strip env (remove_all ''Is Preference:'' line))) c
      else if startswith line ''Preference Type:'' then
        setitem ''preference_type'' (lower env (strip env (remove_all ''Preference Type:'' line))) c
      else if startswith line ''Preference Value:'' then
        setitem ''preference_value'' (lower env (strip env (remove_all ''Preference Value:'' line))) c
      else if startswith line ''Is Generic Food Question:'' then
        setitem ''is_generic_food_question''
          (lower env (strip env (remove_all ''Is Generic Food Question:'' line))) c
      else c)"

definition parse_classification :: "env \<Rightarrow> string \<Rightarrow> classification" where
  "parse_classification env content =
     foldl (classify_line env) default_classification (split CHR 0x0A (strip env content))"

definition classify_query :: "env \<Rightarrow> guide \<Rightarrow> string \<Rightarrow> (error + classification) \<times> guide" where
  "classify_query env g query =
     (case invoke env g (ClassificationPrompt query) of
        (Inl e, g') \<Rightarrow> (Inl e, g')
      | (Inr content, g') \<Rightarrow> (Inr (parse_classification env content), g'))"

subsection \<open>Preferences and plan stores\<close>

text \<open>Lines 151-177. An exception of the read that the code does not catch leaves the
  method, and \<open>__init__\<close>. Writing a file is taken to succeed.\<close>

definition default_preferences :: json where
  "default_preferences = JObj [(''cuisine'', JNull)]"

definition empty_plan :: json where
  "empty_plan = JObj [(''venues'', JArr [])]"

definition save_preferences :: "guide \<Rightarrow> guide" where
  "save_preferences g = g\<lparr>preferences_file := Content (preferences g)\<rparr>"

definition load_preferences :: "guide \<Rightarrow> error + guide" where
  "load_preferences g =
     (case preferences_file g of
        Content v \<Rightarrow> Inr (g\<lparr>preferences := v\<rparr>)
      | Unreadable \<Rightarrow> Inl LoadError
      | Missing \<Rightarrow> Inr (save_preferences (g\<lparr>preferences := default_preferences\<rparr>))
      | Corrupt \<Rightarrow> Inr (save_preferences (g\<lparr>preferences := default_preferences\<rparr>)))"

definition save_plan :: "guide \<Rightarrow> guide" where
  "save_plan g = g\<lparr>plan_file := Content (plan g)\<rparr>"

definition load_plan :: "guide \<Rightarrow> error + guide" where
  "load_plan g =
     (case plan_file g of
        Content loaded_plan \<Rightarrow>
          (case loaded_plan of
             JObj d \<Rightarrow>
               if map_of d ''venues'' \<noteq> None then Inr (g\<lparr>plan := loaded_plan\<rparr>)
               else Inr (g\<lparr>plan := empty_plan\<rparr>)
           | _ \<Rightarrow> Inr (g\<lparr>plan := empty_plan\<rparr>))
      | Unreadable \<Rightarrow> Inl LoadError
      | Missing \<Rightarrow> Inr (save_plan (g\<lparr>plan := empty_plan\<rparr>))
      | Corrupt \<Rightarrow> Inr (save_plan (g\<lparr>plan := empty_plan\<rparr>)))"

text \<open>\<open>NYCGuide.__init__\<close>, on the two files as they are found. \<open>self.preferences\<close> does
  not exist before \<open>load_preferences\<close> has run, which sets it in every branch.\<close>

definition init :: "stored \<Rightarrow> stored \<Rightarrow> error + guide" where
  "init prefs_f plan_f =
     ebind (load_preferences
              \<lparr>last_response = None, last_context = None, last_classification = None,
               plan = empty_plan, preferences = JNull,
               preferences_file = prefs_f, plan_file = plan_f, calls = [], printed = []\<rparr>)
       load_plan"

text \<open>\<open>self.preferences[k] = v\<close> fails on anything but a dict.\<close>

definition update_preference :: "guide \<Rightarrow> string \<Rightarrow> json \<Rightarrow> error + guide" where
  "update_preference g preference_type v =
     (case preferences g of
        JObj d \<Rightarrow> Inr (save_preferences (g\<lparr>preferences := JObj (setitem preference_type v d)\<rparr>))
      | _ \<Rightarrow> Inl TypeError)"

text \<open>\<open>self.preferences[k]\<close>.\<close>

definition subscript :: "json \<Rightarrow> string \<Rightarrow> error + json" where
  "subscript v k = (case v of JObj d \<Rightarrow> getitem d k | _ \<Rightarrow> Inl TypeError)"

subsection \<open>extract\_venue\_info and add\_to\_plan\<close>

text \<open>Lines 183-208: what one line of the response adds to \<open>info\<close>, and the whole method.\<close>

definition extract_line :: "env \<Rightarrow> string dict \<Rightarrow> string \<Rightarrow> string dict" where
  "extract_line env info line =
     (if CHR '':'' \<in> set line then
        setitem (lower env (strip env (takeWhile (\<lambda>c. c \<noteq> CHR '':'') line)))
          (strip env (tl (dropWhile (\<lambda>c. c \<noteq> CHR '':'') line))) info
      else info)"

definition extract_venue_info :: "env \<Rightarrow> guide \<Rightarrow> string \<Rightarrow> (error + string dict) \<times> guide" where
  "extract_venue_info env g ctx =
     (case invoke env g (ExtractionPrompt ctx) of
        (Inl e, g') \<Rightarrow> (Inl e, g')
      | (Inr content, g') \<Rightarrow> (Inr (foldl (extract_line env) [] (split CHR 0x0A content)), g'))"

text \<open>\<open>self.plan.get('venues', [])\<close>.\<close>

definition plan_venues :: "json \<Rightarrow> error + json" where
  "plan_venues p =
     (case p of JObj d \<Rightarrow> Inr (get_default d ''venues'' (JArr [])) | _ \<Rightarrow> Inl AttributeError)"

text \<open>\<open>v.get('name', '').lower()\<close>.\<close>

fun entry_name :: "(string \<Rightarrow> string) \<Rightarrow> json \<Rightarrow> error + string" where
  "entry_name low (JObj d) =
     (case get_default d ''name'' (JStr '''') of
        JStr s \<Rightarrow> Inr (low s)
      | _ \<Rightarrow> Inl AttributeError)"
| "entry_name low v = Inl AttributeError"

text \<open>The \<open>any(...)\<close> of lines 217-218: it stops at the first entry of the same name.\<close>

fun any_same_name :: "(string \<Rightarrow> string) \<Rightarrow> string \<Rightarrow> json list \<Rightarrow> error + bool" where
  "any_same_name low n [] = Inr False"
| "any_same_name low n (v # vs) =
     (case entry_name low v of
        Inl e \<Rightarrow> Inl e
      | Inr m \<Rightarrow> if m = n then Inr True else any_same_name low n vs)"

text \<open>Lines 227-230.\<close>

definition append_venue :: "json \<Rightarrow> json \<Rightarrow> error + json" where
  "append_venue p entry =
     (case p of
        JObj d \<Rightarrow>
          (let d' = (if map_of d ''venues'' = None then setitem ''venues'' (JArr []) d else d)
           in case map_of d' ''venues'' of
                Some (JArr vs) \<Rightarrow> Inr (JObj (setitem ''venues'' (JArr (vs @ [entry])) d'))
              | _ \<Rightarrow> Inl AttributeError)
      | _ \<Rightarrow> Inl TypeError)"

definition venue_entry :: "env \<Rightarrow> string dict \<Rightarrow> string \<Rightarrow> json" where
  "venue_entry env venue_info ctx =
     JObj (setitem ''context'' (JStr ctx)
            (setitem ''added_at'' (JStr (clock env))
              (map (\<lambda>p. (fst p, JStr (snd p))) venue_info)))"

text \<open>The body of the \<open>try\<close> of add\_to\_plan.\<close>

definition try_add :: "env \<Rightarrow> guide \<Rightarrow> string \<Rightarrow> (error + string) \<times> guide" where
  "try_add env g ctx =
     (case extract_venue_info env g ctx of
        (Inl e, g1) \<Rightarrow> (Inl e, g1)
      | (Inr venue_info, g1) \<Rightarrow>
          (case ebind (plan_venues (plan g1)) iterate of
             Inl e \<Rightarrow> (Inl e, g1)
           | Inr vs \<Rightarrow>
               (case any_same_name (lower env) (lower env (get_default venue_info ''name'' '''')) vs of
                  Inl e \<Rightarrow> (Inl e, g1)
                | Inr True \<Rightarrow>
                    (Inr (get_default venue_info ''name'' ''This venue''
                          @ '' is already in your plan!''), g1)
                | Inr False \<Rightarrow>
                    (case append_venue (plan g1) (venue_entry env venue_info ctx) of
                       Inl e \<Rightarrow> (Inl e, g1)
                     | Inr p \<Rightarrow>
                         (Inr (''Added '' @ get_default venue_info ''name'' ''the venue''
                               @ '' to your NYC plan!''),
                          save_plan (g1\<lparr>plan := p\<rparr>))))))"

text \<open>Lines 210-237. Any exception inside the \<open>try\<close> is printed and gives the apology; the
  state keeps what was done before it (the extraction was called).\<close>

definition no_venue_message :: string where
  "no_venue_message = ''No venue to add to plan. Please ask about a place first.''"

definition add_failed_message :: string where
  "add_failed_message =
     ''Sorry, I couldn't add this place to your plan. Please try asking about the venue again.''"

definition add_to_plan :: "env \<Rightarrow> guide \<Rightarrow> string \<times> guide" where
  "add_to_plan env g =
     (case last_context g of
        None \<Rightarrow> (no_venue_message, g)
      | Some ctx \<Rightarrow>
          if ctx = [] then (no_venue_message, g)
          else (case try_add env g ctx of
                  (Inl e, g') \<Rightarrow> (add_failed_message, print_error g' ''Error adding to plan: '' e)
                | (Inr r, g') \<Rightarrow> (r, g')))"

subsection \<open>get\_plan\_summary and generate\_day\_plan\<close>

text \<open>Lines 239-295: the projection of one venue (lines 245-250 and 277-282), the loop over
  the venues, which is outside the \<open>try\<close>, and the two methods.\<close>

fun venue_summary :: "json \<Rightarrow> error + json" where
  "venue_summary (JObj d) =
     Inr (JObj [(''name'', get_default d ''name'' (JStr ''Unknown Venue'')),
                (''type'', get_default d ''type'' (JStr ''Unknown Type'')),
                (''location'', get_default d ''location'' (JStr ''Location not specified'')),
                (''budget'', get_default d ''budget'' (JStr ''Budget not specified''))])"
| "venue_summary v = Inl AttributeError"

fun venue_summaries :: "json list \<Rightarrow> error + json list" where
  "venue_summaries [] = Inr []"
| "venue_summaries (v # vs) =
     (case venue_summary v of
        Inl e \<Rightarrow> Inl e
      | Inr s \<Rightarrow> (case venue_summaries vs of Inl e \<Rightarrow> Inl e | Inr ss \<Rightarrow> Inr (s # ss)))"

definition plan_empty_message :: string where
  "plan_empty_message = ''Your NYC plan is empty! Ask me about places you'd like to visit.''"

text \<open>\<open>len\<close> of the venues is the number of items the loop went through.\<close>

definition get_plan_summary :: "env \<Rightarrow> guide \<Rightarrow> (error + string) \<times> guide" where
  "get_plan_summary env g =
     (case plan_venues (plan g) of
        Inl e \<Rightarrow> (Inl e, g)
      | Inr venues \<Rightarrow>
          if \<not> truthy venues then (Inr plan_empty_message, g)
          else (case iterate venues of
                  Inl e \<Rightarrow> (Inl e, g)
                | Inr items \<Rightarrow>
                    (case venue_summaries items of
                       Inl e \<Rightarrow> (Inl e, g)
                     | Inr venues_for_summary \<Rightarrow>
                         (case invoke env g (SummaryPrompt (JArr venues_for_summary)) of
                            (Inl e, g') \<Rightarrow>
                              (Inr (''Sorry, I couldn't generate your plan summary. You have ''
                                    @ str_nat (length items) @ '' venues saved.''),
                               print_error g' ''Error generating summary: '' e)
                          | (Inr content, g') \<Rightarrow> (Inr content, g')))))"

text \<open>The banner starts with a newline and the four characters U+00F0, U+0178, U+2014,
  U+00BD that the source file holds at this place.\<close>

definition day_plan_banner :: string where
  "day_plan_banner =
     [CHR 0x0A, CHR 0xC3, CHR 0xB0, CHR 0xC5, CHR 0xB8, CHR 0xE2, CHR 0x80, CHR 0x94,
      CHR 0xC2, CHR 0xBD]
     @ '' Here's a suggested day plan with your saved places:'' @ [CHR 0x0A, CHR 0x0A]"

definition generate_day_plan :: "env \<Rightarrow> guide \<Rightarrow> (error + string) \<times> guide" where
  "generate_day_plan env g =
     (case plan_venues (plan g) of
        Inl e \<Rightarrow> (Inl e, g)
      | Inr venues \<Rightarrow>
          if \<not> truthy venues then (Inr ''No venues saved in your plan!'', g)
          else (case iterate venues of
                  Inl e \<Rightarrow> (Inl e, g)
                | Inr items \<Rightarrow>
                    (case venue_summaries items of
                       Inl e \<Rightarrow> (Inl e, g)
                     | Inr venues_for_planning \<Rightarrow>
                         (case invoke env g (DayPlanPrompt (JArr venues_for_planning)) of
                            (Inl e, g') \<Rightarrow>
                              (Inr ''Sorry, I couldn't generate a day plan with your saved venues.'',
                               print_error g' ''Error generating day plan: '' e)
                          | (Inr content, g') \<Rightarrow> (Inr (day_plan_banner @ content), g')))))"

subsection \<open>get\_recommendations\<close>

definition plan_add_phrases :: "string list" where
  "plan_add_phrases = [''add to plan'', ''add it to'', ''save this'', ''adding it'']"

definition is_plan_add :: "env \<Rightarrow> string \<Rightarrow> bool" where
  "is_plan_add env q = list_ex (\<lambda>phrase. contains (lower env q) phrase) plan_add_phrases"

text \<open>Line 338.\<close>

definition is_cuisine_preference :: "classification \<Rightarrow> error + bool" where
  "is_cuisine_preference c =
     ebind (getitem c ''is_preference'') (\<lambda>is_preference.
       if is_preference = ''yes''
       then ebind (getitem c ''preference_type'') (\<lambda>preference_type.
              Inr (preference_type = ''cuisine''))
       else Inr False)"

definition preference_noted :: "string \<Rightarrow> string" where
  "preference_noted v =
     ''I've noted that you like '' @ v
     @ '' food. I'll remember this for future recommendations!''"

text \<open>A value inside an f-string: a string as it is, anything else by \<open>repr env\<close>.\<close>

definition format :: "env \<Rightarrow> json \<Rightarrow> string" where
  "format env v = (case v of JStr s \<Rightarrow> s | _ \<Rightarrow> repr env v)"

definition food_categories :: "string list" where
  "food_categories = [''Food and Dining'', ''Recommendations'']"

text \<open>Lines 342-345. The conjunction is evaluated left to right and stops at the first
  false operand.\<close>

definition enhanced_query :: "env \<Rightarrow> json \<Rightarrow> classification \<Rightarrow> string \<Rightarrow> error + string" where
  "enhanced_query env prefs c query =
     ebind (getitem c ''category'') (\<lambda>category.
       if category \<in> set food_categories then
         ebind (subscript prefs ''cuisine'') (\<lambda>cuisine.
           if truthy cuisine then
             ebind (getitem c ''is_generic_food_question'') (\<lambda>generic.
               if generic = ''yes''
               then Inr (query @ '' '' @ format env cuisine @ '' restaurant'')
               else Inr query)
           else Inr query)
       else Inr query)"

text \<open>Line 353.\<close>

definition preferences_to_pass :: "json \<Rightarrow> classification \<Rightarrow> error + json" where
  "preferences_to_pass prefs c =
     ebind (getitem c ''category'') (\<lambda>category.
       if category \<in> set food_categories then
         ebind (getitem c ''is_generic_food_question'') (\<lambda>generic.
           if generic = ''yes'' then Inr prefs else Inr (JObj [(''cuisine'', JNull)]))
       else Inr (JObj [(''cuisine'', JNull)]))"

text \<open>Lines 353-363: the arguments of the initial prompt, in the order they are evaluated.\<close>

definition initial_prompt :: "json \<Rightarrow> classification \<Rightarrow> string \<Rightarrow> string \<Rightarrow> error + prompt" where
  "initial_prompt prefs c ctx query =
     ebind (preferences_to_pass prefs c) (\<lambda>passed.
       ebind (getitem c ''category'') (\<lambda>category.
         ebind (getitem c ''intent'') (\<lambda>intent.
           ebind (getitem c ''key_terms'') (\<lambda>key_terms.
             Inr (InitialPrompt ctx query category intent key_terms passed)))))"

definition no_match_message :: string where
  "no_match_message =
     ''I couldn't find any matching venues for that request. Could you try rephrasing or being more specific?''"

definition context_separator :: string where
  "context_separator = [CHR 0x0A, CHR 0x0A] @ ''---'' @ [CHR 0x0A, CHR 0x0A]"

text \<open>Lines 342-367. A score is the real number the float stands for, and \<open>7 / 10\<close> is
  the literal \<open>0.7\<close>.\<close>

definition recommend :: "env \<Rightarrow> guide \<Rightarrow> classification \<Rightarrow> string \<Rightarrow> (error + string) \<times> guide" where
  "recommend env g c query =
     (case enhanced_query env (preferences g) c query of
        Inl e \<Rightarrow> (Inl e, g)
      | Inr q \<Rightarrow>
          (case search env g q 4 of
             (Inl e, g1) \<Rightarrow> (Inl e, g1)
           | (Inr results, g1) \<Rightarrow>
               (case results of
                  [] \<Rightarrow> (Inr no_match_message, g1)
                | first # rest \<Rightarrow>
                    if snd first < 7 / 10 then (Inr no_match_message, g1)
                    else
                      (let ctx = join context_separator (map fst results);
                           g2 = g1\<lparr>last_context := Some ctx\<rparr>
                       in case initial_prompt (preferences g2) c ctx query of
                            Inl e \<Rightarrow> (Inl e, g2)
                          | Inr p \<Rightarrow>
                              (case invoke env g2 p of
                                 (Inl e, g3) \<Rightarrow> (Inl e, g3)
                               | (Inr content, g3) \<Rightarrow>
                                   (Inr content, g3\<lparr>last_response := Some content\<rparr>))))))"

text \<open>Lines 331-367.\<close>

definition get_recommendations :: "env \<Rightarrow> guide \<Rightarrow> string \<Rightarrow> (error + string) \<times> guide" where
  "get_recommendations env g query =
     (if is_plan_add env query then (case add_to_plan env g of (r, g') \<Rightarrow> (Inr r, g'))
      else
        (case classify_query env g query of
           (Inl e, g1) \<Rightarrow> (Inl e, g1)
         | (Inr c, g1) \<Rightarrow>
             (let g2 = g1\<lparr>last_classification := Some c\<rparr>
              in case is_cuisine_preference c of
                   Inl e \<Rightarrow> (Inl e, g2)
                 | Inr True \<Rightarrow>
                     (case getitem c ''preference_value'' of
                        Inl e \<Rightarrow> (Inl e, g2)
                      | Inr v \<Rightarrow>
                          (case update_preference g2 ''cuisine'' (JStr v) of
                             Inl e \<Rightarrow> (Inl e, g2)
                           | Inr g3 \<Rightarrow> (Inr (preference_noted v), g3)))
                 | Inr False \<Rightarrow> recommend env g2 c query)))"

subsection \<open>handle\_follow\_up and is\_follow\_up\_question\<close>

text \<open>Lines 369-397. The follow-up prompt takes the context, the previous response, the
  question, the category and intent of the new classification and the preferences.\<close>

definition no_previous_message :: string where
  "no_previous_message =
     ''I don't have any previous recommendations to reference. Please ask about a specific place first.''"

definition follow_up_prompt :: "guide \<Rightarrow> classification \<Rightarrow> string \<Rightarrow> string \<Rightarrow> string \<Rightarrow> error + prompt" where
  "follow_up_prompt g c ctx previous_response question =
     ebind (getitem c ''category'') (\<lambda>category.
       ebind (getitem c ''intent'') (\<lambda>intent.
         Inr (FollowUpPrompt ctx previous_response question category intent (preferences g))))"

definition handle_follow_up :: "env \<Rightarrow> guide \<Rightarrow> string \<Rightarrow> (error + string) \<times> guide" where
  "handle_follow_up env g question =
     (if is_plan_add env question then (case add_to_plan env g of (r, g') \<Rightarrow> (Inr r, g'))
      else
        (case (last_response g, last_context g) of
           (Some previous_response, Some ctx) \<Rightarrow>
             if previous_response = [] \<or> ctx = [] then (Inr no_previous_message, g)
             else
               (case classify_query env g question of
                  (Inl e, g1) \<Rightarrow> (Inl e, g1)
                | (Inr c, g1) \<Rightarrow>
                    (case follow_up_prompt g1 c ctx previous_response question of
                       Inl e \<Rightarrow> (Inl e, g1)
                     | Inr p \<Rightarrow> invoke env g1 p))
         | _ \<Rightarrow> (Inr no_previous_message, g)))"

definition follow_up_categories :: "string list" where
  "follow_up_categories = [''Location/Navigation'', ''Price/Budget Inquiry'', ''Details/Information'']"

definition is_follow_up_question :: "env \<Rightarrow> guide \<Rightarrow> string \<Rightarrow> (error + bool) \<times> guide" where
  "is_follow_up_question env g question =
     (if is_plan_add env question then (Inr True, g)
      else
        (case classify_query env g question of
           (Inl e, g1) \<Rightarrow> (Inl e, g1)
         | (Inr c, g1) \<Rightarrow>
             (case getitem c ''category'' of
                Inl e \<Rightarrow> (Inl e, g1)
              | Inr category \<Rightarrow>
                  (Inr (category \<in> set follow_up_categories \<and> last_response g1 \<noteq> None), g1))))"

subsection \<open>main\<close>

text \<open>Lines 412-435: one round of the \<open>while True\<close> loop on the line read, and whether the
  loop goes on. What is printed goes to \<open>printed\<close>. The farewell ends with the four
  characters U+00F0, U+0178, U+2018, U+2039 that the source file holds at this place.\<close>

datatype outcome = Continue | Break

definition farewell :: string where
  "farewell =
     [CHR 0x0A] @ ''Thanks for exploring NYC! I'll remember your preferences and plan for next time! ''
     @ [CHR 0xC3, CHR 0xB0, CHR 0xC5, CHR 0xB8, CHR 0xE2, CHR 0x80, CHR 0x98,
        CHR 0xE2, CHR 0x80, CHR 0xB9]"

definition reply :: "string \<Rightarrow> string" where
  "reply response = [CHR 0x0A] @ ''NYC Guide: '' @ response @ [CHR 0x0A]"

text \<open>Lines 416-422.\<close>

definition leave :: "env \<Rightarrow> guide \<Rightarrow> (error + outcome) \<times> guide" where
  "leave env g =
     (case plan_venues (plan g) of
        Inl e \<Rightarrow> (Inl e, g)
      | Inr venues \<Rightarrow>
          if truthy venues then
            (case get_plan_summary env
                    (print_line g ([CHR 0x0A] @ ''Here's your final NYC plan:'')) of
               (Inl e, g1) \<Rightarrow> (Inl e, g1)
             | (Inr summary, g1) \<Rightarrow>
                 (case generate_day_plan env
                         (print_line (print_line g1 summary)
                            ([CHR 0x0A]
                             @ ''Let me organize these places into a day plan for you...'')) of
                    (Inl e, g2) \<Rightarrow> (Inl e, g2)
                  | (Inr day_plan, g2) \<Rightarrow>
                      (Inr Break, print_line (print_line g2 day_plan) farewell)))
          else (Inr Break, print_line g farewell))"

text \<open>Lines 428-433.\<close>

definition respond :: "env \<Rightarrow> guide \<Rightarrow> string \<Rightarrow> (error + string) \<times> guide" where
  "respond env g user_input =
     (if user_input = ''add to plan'' then (case add_to_plan env g of (r, g') \<Rightarrow> (Inr r, g'))
      else
        (case is_follow_up_question env g user_input of
           (Inl e, g1) \<Rightarrow> (Inl e, g1)
         | (Inr True, g1) \<Rightarrow> handle_follow_up env g1 user_input
         | (Inr False, g1) \<Rightarrow> get_recommendations env g1 user_input))"

definition turn :: "env \<Rightarrow> guide \<Rightarrow> string \<Rightarrow> (error + outcome) \<times> guide" where
  "turn env g line =
     (let user_input = lower env (strip env line) in
      if user_input \<in> set [''quit'', ''exit'', ''bye'', ''done''] then leave env g
      else if user_input = ''show plan'' then
        (case get_plan_summary env g of
           (Inl e, g1) \<Rightarrow> (Inl e, g1)
         | (Inr summary, g1) \<Rightarrow> (Inr Continue, print_line g1 (reply summary)))
      else
        (case respond env g user_input of
           (Inl e, g1) \<Rightarrow> (Inl e, g1)
         | (Inr response, g1) \<Rightarrow> (Inr Continue, print_line g1 (reply response))))"

section \<open>Vocabulary of the properties\<close>

definition classification_keys :: "string list" where
  "classification_keys =
     [''category'', ''intent'', ''key_terms'', ''is_preference'', ''preference_type'',
      ''preference_value'', ''is_generic_food_question'']"

text \<open>The value of a field after parsing: the default when no line starts with the
  key, else what the last such line gives.\<close>

definition parsed_field :: "env \<Rightarrow> string \<Rightarrow> (string \<Rightarrow> string) \<Rightarrow> string \<Rightarrow> string list \<Rightarrow> string" where
  "parsed_field env key post dflt lines =
     (case filter (\<lambda>l. startswith l key) lines of
        [] \<Rightarrow> dflt
      | m # ms \<Rightarrow> post (strip env (remove_all key (last (m # ms)))))"

text \<open>A sequence of update\_preference calls, each a preference type and a value.\<close>

fun update_all :: "guide \<Rightarrow> (string \<times> json) list \<Rightarrow> error + guide" where
  "update_all g [] = Inr g"
| "update_all g (u # us) =
     (case update_preference g (fst u) (snd u) of
        Inl e \<Rightarrow> Inl e
      | Inr g' \<Rightarrow> update_all g' us)"

text \<open>The structure load\_plan expects: a dict with a \<open>venues\<close> key.\<close>

fun plan_shaped :: "json \<Rightarrow> bool" where
  "plan_shaped (JObj d) = (map_of d ''venues'' \<noteq> None)"
| "plan_shaped v = False"

text \<open>Every entry has a name that can be lower-cased (a missing name counts as the empty
  one), and no two entries have the same lower-cased name.\<close>

definition names_unique :: "(string \<Rightarrow> string) \<Rightarrow> json list \<Rightarrow> bool" where
  "names_unique low vs =
     (list_all (\<lambda>v. \<not> isl (entry_name low v)) vs \<and> distinct (map (entry_name low) vs))"

text \<open>The plan is \<open>{"venues": [...]}\<close> with entries of pairwise different names, and the
  plan file holds it.\<close>

definition plan_invariant :: "(string \<Rightarrow> string) \<Rightarrow> guide \<Rightarrow> bool" where
  "plan_invariant low g =
     (\<exists>vs. plan g = JObj [(''venues'', JArr vs)] \<and> names_unique low vs \<and>
           plan_file g = Content (plan g))"

text \<open>
  The states a guide can be in, under a runtime whose \<open>str.lower()\<close> is \<open>low\<close>: it is
  created on any preferences file and a plan file that is missing or is not valid JSON,
  runs any operations in any order, and may be created again on the plan file it left
  behind.
\<close>

inductive reachable :: "(string \<Rightarrow> string) \<Rightarrow> guide \<Rightarrow> bool" for low where
  fresh: "plan_f = Missing \<or> plan_f = Corrupt \<Longrightarrow> init prefs_f plan_f = Inr g \<Longrightarrow> reachable low g"
| restart: "reachable low g \<Longrightarrow> init prefs_f (plan_file g) = Inr g' \<Longrightarrow> reachable low g'"
| after_turn: "reachable low g \<Longrightarrow> lower env = low \<Longrightarrow> reachable low (snd (turn env g line))"
| after_add_to_plan:
    "reachable low g \<Longrightarrow> lower env = low \<Longrightarrow> reachable low (snd (add_to_plan env g))"
| after_get_recommendations:
    "reachable low g \<Longrightarrow> lower env = low \<Longrightarrow> reachable low (snd (get_recommendations env g q))"
| after_handle_follow_up:
    "reachable low g \<Longrightarrow> lower env = low \<Longrightarrow> reachable low (snd (handle_follow_up env g q))"
| after_is_follow_up_question:
    "reachable low g \<Longrightarrow> lower env = low \<Longrightarrow> reachable low (snd (is_follow_up_question env g q))"
| after_get_plan_summary:
    "reachable low g \<Longrightarrow> lower env = low \<Longrightarrow> reachable low (snd (get_plan_summary env g))"
| after_generate_day_plan:
    "reachable low g \<Longrightarrow> lower env = low \<Longrightarrow> reachable low (snd (generate_day_plan env g))"
| after_update_preference:
    "reachable low g \<Longrightarrow> update_preference g t v = Inr g' \<Longrightarrow> reachable low g'"

text \<open>What an external call was asked about: the question of a classification, initial or
  follow-up prompt, and the text a retrieval query begins with.\<close>

fun asks_about :: "string \<Rightarrow> call \<Rightarrow> bool" where
  "asks_about u (Invoke (ClassificationPrompt q)) = (q = u)"
| "asks_about u (Invoke (InitialPrompt ctx q category intent key_terms passed)) = (q = u)"
| "asks_about u (Invoke (FollowUpPrompt ctx previous q category intent passed)) = (q = u)"
| "asks_about u (Invoke p) = True"
| "asks_about u (Search q k) = startswith q u"

text \<open>From \<open>g\<close> to \<open>g'\<close> only calls about \<open>u\<close> were made.\<close>

definition only_asks :: "string \<Rightarrow> guide \<Rightarrow> guide \<Rightarrow> bool" where
  "only_asks u g g' = (\<exists>cs. calls g' = calls g @ cs \<and> list_all (asks_about u) cs)"

fun is_classification :: "call \<Rightarrow> bool" where
  "is_classification (Invoke (ClassificationPrompt q)) = True"
| "is_classification c = False"

fun is_initial :: "call \<Rightarrow> bool" where
  "is_initial (Invoke (InitialPrompt ctx q category intent key_terms passed)) = True"
| "is_initial c = False"

text \<open>The external calls add\_to\_plan makes: one extraction, when there is a context.\<close>

definition extraction_calls :: "guide \<Rightarrow> call list" where
  "extraction_calls g =
     (case last_context g of
        None \<Rightarrow> []
      | Some ctx \<Rightarrow> if ctx = [] then [] else [Invoke (ExtractionPrompt ctx)])"

text \<open>The condition of lines 343-344 on the stored preferences and a classification: a food
  category, a cuisine that is there and true in a condition, and a generic question.\<close>

definition augments :: "json \<Rightarrow> classification \<Rightarrow> bool" where
  "augments prefs c =
     (getitem c ''category'' \<in> Inr ` set food_categories \<and>
      (case subscript prefs ''cuisine'' of Inl e \<Rightarrow> False | Inr v \<Rightarrow> truthy v) \<and>
      getitem c ''is_generic_food_question'' = Inr ''yes'')"

text \<open>The query of line 345.\<close>

definition augmented_query :: "env \<Rightarrow> json \<Rightarrow> string \<Rightarrow> string" where
  "augmented_query env prefs query =
     (case subscript prefs ''cuisine'' of
        Inl e \<Rightarrow> query
      | Inr v \<Rightarrow> query @ '' '' @ format env v @ '' restaurant'')"

subsection \<open>A sample session\<close>

text \<open>\<open>str.lower()\<close> and \<open>str.strip()\<close> as they are on ASCII text, for the sample runtime.\<close>

definition isspace :: "char \<Rightarrow> bool" where
  "isspace c = (let n = (of_char c :: nat) in (9 \<le> n \<and> n \<le> 13) \<or> (28 \<le> n \<and> n \<le> 32))"

definition isupper :: "char \<Rightarrow> bool" where
  "isupper c = (let n = (of_char c :: nat) in 65 \<le> n \<and> n \<le> 90)"

definition lower_char :: "char \<Rightarrow> char" where
  "lower_char c = (if isupper c then char_of ((of_char c :: nat) + 32) else c)"

definition ascii_lower :: "string \<Rightarrow> string" where
  "ascii_lower s = map lower_char s"

definition ascii_strip :: "string \<Rightarrow> string" where
  "ascii_strip s = rev (dropWhile isspace (rev (dropWhile isspace s)))"

definition sample_env :: env where
  "sample_env =
     \<lparr>complete = (\<lambda>n p. case p of
          ClassificationPrompt q \<Rightarrow>
            Inr ''Category: Food and Dining\<newline>Intent: eat\<newline>Is Generic Food Question: Yes''
        | ExtractionPrompt c \<Rightarrow> Inr ''Name: Joe Pizza\<newline>Location: 7 Carmine St''
        | InitialPrompt ctx q category intent key_terms passed \<Rightarrow> Inr ''Go to Joe Pizza''
        | FollowUpPrompt ctx previous q category intent passed \<Rightarrow> Inr ''It is cheap''
        | _ \<Rightarrow> Inl ServiceError),
      retrieve = (\<lambda>q k. Inr [(''Joe Pizza, 7 Carmine St'', 8 / 10), (''Other'', 1 / 2)]),
      clock = ''2024-05-01T10:00:00'',
      repr = (\<lambda>v. ''?''),
      lower = ascii_lower,
      strip = ascii_strip\<rparr>"

text \<open>The guide created on the preferences \<open>{"cuisine": "mexican"}\<close> and no plan file.\<close>

definition sample_guide :: guide where
  "sample_guide =
     \<lparr>last_response = None, last_context = None, last_classification = None,
      plan = JObj [(''venues'', JArr [])],
      preferences = JObj [(''cuisine'', JStr ''mexican'')],
      preferences_file = Content (JObj [(''cuisine'', JStr ''mexican'')]),
      plan_file = Content (JObj [(''venues'', JArr [])]),
      calls = [], printed = []\<rparr>"

definition low_score_env :: env where
  "low_score_env = sample_env\<lparr>retrieve := (\<lambda>q k. Inr [(''Other'', 1 / 2)])\<rparr>"

definition blank_preference_env :: env where
  "blank_preference_env =
     sample_env\<lparr>complete := (\<lambda>n p.
        Inr ''Is Preference: yes\<newline>Preference Type: cuisine\<newline>Preference Value:'')\<rparr>"

text \<open>The guide after a preference statement whose classification names no value.\<close>

definition blank_cuisine_guide :: guide where
  "blank_cuisine_guide = snd (get_recommendations blank_preference_env sample_guide ''i like food'')"

text \<open>The guide after one successful recommendation.\<close>

definition recommended_guide :: guide where
  "recommended_guide = snd (get_recommendations sample_env sample_guide ''where to eat'')"

text \<open>A guide whose two files hold the JSON text \<open>[]\<close>.\<close>

definition wrong_shape_guide :: guide where
  "wrong_shape_guide =
     sample_guide\<lparr>preferences_file := Content (JArr []), plan_file := Content (JArr [])\<rparr>"

text \<open>The guide after the recommended venue was added to the plan, and a completion
  service that names the venue in capitals.\<close>

definition planned_guide :: guide where
  "planned_guide = snd (add_to_plan sample_env recommended_guide)"

definition shouting_env :: env where
  "shouting_env = sample_env\<lparr>complete := (\<lambda>n p. Inr ''Name: JOE PIZZA'')\<rparr>"

section \<open>Properties\<close>

subsection \<open>Dictionaries and prefixes\<close>

lemma map_of_setitem: "map_of (setitem k v d) = (map_of d)(k \<mapsto> v)"
  by (induction d) auto

lemma keys_setitem: "k \<in> fst ` set d \<Longrightarrow> map fst (setitem k v d) = map fst d"
  by (induction d) auto

lemma startswith_comparable:
  "startswith l p \<Longrightarrow> startswith l q \<Longrightarrow> startswith p q \<or> startswith q p"
proof (induction l p arbitrary: q rule: startswith.induct)
  case (1 s)
  then show ?case by simp
next
  case (2 p ps)
  then show ?case by simp
next
  case (3 c cs p ps)
  then show ?case by (cases q) auto
qed


subsection \<open>classify\_query\<close>

text \<open>No line starts with two of the keys.\<close>
lemma prefix_exclusive:
  "startswith l ''Category:'' \<Longrightarrow> startswith l ''Intent:'' = False"
  "startswith l ''Category:'' \<Longrightarrow> startswith l ''Key Terms:'' = False"
  "startswith l ''Category:'' \<Longrightarrow> startswith l ''Is Preference:'' = False"
  "startswith l ''Category:'' \<Longrightarrow> startswith l ''Preference Type:'' = False"
  "startswith l ''Category:'' \<Longrightarrow> startswith l ''Preference Value:'' = False"
  "startswith l ''Category:'' \<Longrightarrow> startswith l ''Is Generic Food Question:'' = False"
  "startswith l ''Intent:'' \<Longrightarrow> startswith l ''Key Terms:'' = False"
  "startswith l ''Intent:'' \<Longrightarrow> startswith l ''Is Preference:'' = False"
  "startswith l ''Intent:'' \<Longrightarrow> startswith l ''Preference Type:'' = False"
  "startswith l ''Intent:'' \<Longrightarrow> startswith l ''Preference Value:'' = False"
  "startswith l ''Intent:'' \<Longrightarrow> startswith l ''Is Generic Food Question:'' = False"
  "startswith l ''Key Terms:'' \<Longrightarrow> startswith l ''Is Preference:'' = False"
  "startswith l ''Key Terms:'' \<Longrightarrow> startswith l ''Preference Type:'' = False"
  "startswith l ''Key Terms:'' \<Longrightarrow> startswith l ''Preference Value:'' = False"
  "startswith l ''Key Terms:'' \<Longrightarrow> startswith l ''Is Generic Food Question:'' = False"
  "startswith l ''Is Preference:'' \<Longrightarrow> startswith l ''Preference Type:'' = False"
  "startswith l ''Is Preference:'' \<Longrightarrow> startswith l ''Preference Value:'' = False"
  "startswith l ''Is Preference:'' \<Longrightarrow> startswith l ''Is Generic Food Question:'' = False"
  "startswith l ''Preference Type:'' \<Longrightarrow> startswith l ''Preference Value:'' = False"
  "startswith l ''Preference Type:'' \<Longrightarrow> startswith l ''Is Generic Food Question:'' = False"
  "startswith l ''Preference Value:'' \<Longrightarrow> startswith l ''Is Generic Food Question:'' = False"
  by (auto dest: startswith_comparable)

lemma classify_line_keys:
  assumes "map fst c = classification_keys"
  shows "map fst (classify_line env c l) = classification_keys"
proof -
  from assms have "fst ` set c = set classification_keys"
    by (metis list.set_map)
  with assms show ?thesis
    unfolding classify_line_def by (simp add: keys_setitem classification_keys_def)
qed

lemma parse_keys_fold:
  "map fst c = classification_keys \<Longrightarrow> map fst (foldl (classify_line env) c ls) = classification_keys"
  by (induction ls arbitrary: c) (simp_all add: classify_line_keys)

lemma parse_classification_keys: "map fst (parse_classification env content) = classification_keys"
  unfolding parse_classification_def
  by (rule parse_keys_fold) (simp add: default_classification_def classification_keys_def)

lemma fold_field:
  assumes step: "\<And>c l. map_of (classify_line env c l) k =
      (if startswith l key then Some (post (strip env (remove_all key l))) else map_of c k)"
  shows "map_of (foldl (classify_line env) c ls) k =
      (case filter (\<lambda>l. startswith l key) ls of
         [] \<Rightarrow> map_of c k
       | m # ms \<Rightarrow> Some (post (strip env (remove_all key (last (m # ms))))))"
proof (induction ls rule: rev_induct)
  case Nil
  then show ?case by simp
next
  case (snoc l ls)
  then show ?case
    by (cases "filter (\<lambda>l. startswith l key) ls") (simp_all add: step)
qed

lemma parsed_field_fold:
  assumes step: "\<And>c l. map_of (classify_line env c l) k =
      (if startswith l key then Some (post (strip env (remove_all key l))) else map_of c k)"
    and dflt: "map_of default_classification k = Some dflt"
  shows "getitem (parse_classification env content) k =
      Inr (parsed_field env key post dflt (split CHR 0x0A (strip env content)))"
  unfolding parse_classification_def getitem_def parsed_field_def
  by (simp add: fold_field [OF step] dflt split: list.splits)

lemma step_category:
  "map_of (classify_line env c l) ''category'' =
     (if startswith l ''Category:'' then Some (id (strip env (remove_all ''Category:'' l)))
      else map_of c ''category'')"
  unfolding classify_line_def by (simp add: map_of_setitem prefix_exclusive)

lemma step_intent:
  "map_of (classify_line env c l) ''intent'' =
     (if startswith l ''Intent:'' then Some (id (strip env (remove_all ''Intent:'' l)))
      else map_of c ''intent'')"
  unfolding classify_line_def by (simp add: map_of_setitem prefix_exclusive)

lemma step_key_terms:
  "map_of (classify_line env c l) ''key_terms'' =
     (if startswith l ''Key Terms:'' then Some (id (strip env (remove_all ''Key Terms:'' l)))
      else map_of c ''key_terms'')"
  unfolding classify_line_def by (simp add: map_of_setitem prefix_exclusive)

lemma step_is_preference:
  "map_of (classify_line env c l) ''is_preference'' =
     (if startswith l ''Is Preference:'' then Some (lower env (strip env (remove_all ''Is Preference:'' l)))
      else map_of c ''is_preference'')"
  unfolding classify_line_def by (simp add: map_of_setitem prefix_exclusive)

lemma step_preference_type:
  "map_of (classify_line env c l) ''preference_type'' =
     (if startswith l ''Preference Type:'' then Some (lower env (strip env (remove_all ''Preference Type:'' l)))
      else map_of c ''preference_type'')"
  unfolding classify_line_def by (simp add: map_of_setitem prefix_exclusive)

lemma step_preference_value:
  "map_of (classify_line env c l) ''preference_value'' =
     (if startswith l ''Preference Value:'' then Some (lower env (strip env (remove_all ''Preference Value:'' l)))
      else map_of c ''preference_value'')"
  unfolding classify_line_def by (simp add: map_of_setitem prefix_exclusive)

lemma step_is_generic_food_question:
  "map_of (classify_line env c l) ''is_generic_food_question'' =
     (if startswith l ''Is Generic Food Question:'' then Some (lower env (strip env (remove_all ''Is Generic Food Question:'' l)))
      else map_of c ''is_generic_food_question'')"
  unfolding classify_line_def by (simp add: map_of_setitem prefix_exclusive)

lemma parsed_category:
  "getitem (parse_classification env content) ''category'' =
     Inr (parsed_field env ''Category:'' id '''' (split CHR 0x0A (strip env content)))"
  by (rule parsed_field_fold [OF step_category]) (simp add: default_classification_def)

lemma parsed_intent:
  "getitem (parse_classification env content) ''intent'' =
     Inr (parsed_field env ''Intent:'' id '''' (split CHR 0x0A (strip env content)))"
  by (rule parsed_field_fold [OF step_intent]) (simp add: default_classification_def)

lemma parsed_key_terms:
  "getitem (parse_classification env content) ''key_terms'' =
     Inr (parsed_field env ''Key Terms:'' id '''' (split CHR 0x0A (strip env content)))"
  by (rule parsed_field_fold [OF step_key_terms]) (simp add: default_classification_def)

lemma parsed_is_preference:
  "getitem (parse_classification env content) ''is_preference'' =
     Inr (parsed_field env ''Is Preference:'' (lower env) ''no'' (split CHR 0x0A (strip env content)))"
  by (rule parsed_field_fold [OF step_is_preference]) (simp add: default_classification_def)

lemma parsed_preference_type:
  "getitem (parse_classification env content) ''preference_type'' =
     Inr (parsed_field env ''Preference Type:'' (lower env) ''none'' (split CHR 0x0A (strip env content)))"
  by (rule parsed_field_fold [OF step_preference_type]) (simp add: default_classification_def)

lemma parsed_preference_value:
  "getitem (parse_classification env content) ''preference_value'' =
     Inr (parsed_field env ''Preference Value:'' (lower env) ''none'' (split CHR 0x0A (strip env content)))"
  by (rule parsed_field_fold [OF step_preference_value]) (simp add: default_classification_def)

lemma parsed_is_generic_food_question:
  "getitem (parse_classification env content) ''is_generic_food_question'' =
     Inr (parsed_field env ''Is Generic Food Question:'' (lower env) ''none'' (split CHR 0x0A (strip env content)))"
  by (rule parsed_field_fold [OF step_is_generic_food_question]) (simp add: default_classification_def)

lemma classify_query_fst:
  "fst (classify_query env g query) =
     (case complete env (length (calls g)) (ClassificationPrompt query) of
        Inl e \<Rightarrow> Inl e
      | Inr content \<Rightarrow> Inr (parse_classification env content))"
  by (simp add: classify_query_def invoke_def split: sum.splits)

lemma classify_query_snd:
  "snd (classify_query env g query) = g\<lparr>calls := calls g @ [Invoke (ClassificationPrompt query)]\<rparr>"
  by (simp add: classify_query_def invoke_def split: sum.splits)

text \<open>
  C3. Whatever text the completion service returns, classify\_query returns a
  classification and raises nothing. The classification has exactly the seven keys, and
  the value of each is the one parsed from the last line that starts with its key or,
  when there is no such line, its default.
\<close>

theorem classify_query_populated:
  assumes "complete env (length (calls g)) (ClassificationPrompt query) = Inr content"
  shows "\<exists>c ls. fst (classify_query env g query) = Inr c \<and>
          ls = split CHR 0x0A (strip env content) \<and>
          map fst c = classification_keys \<and>
          getitem c ''category'' = Inr (parsed_field env ''Category:'' id '''' ls) \<and>
          getitem c ''intent'' = Inr (parsed_field env ''Intent:'' id '''' ls) \<and>
          getitem c ''key_terms'' = Inr (parsed_field env ''Key Terms:'' id '''' ls) \<and>
          getitem c ''is_preference'' = Inr (parsed_field env ''Is Preference:'' (lower env) ''no'' ls) \<and>
          getitem c ''preference_type'' = Inr (parsed_field env ''Preference Type:'' (lower env) ''none'' ls) \<and>
          getitem c ''preference_value'' = Inr (parsed_field env ''Preference Value:'' (lower env) ''none'' ls) \<and>
          getitem c ''is_generic_food_question'' = Inr (parsed_field env ''Is Generic Food Question:'' (lower env) ''none'' ls)"
  using assms
  by (simp add: classify_query_fst parse_classification_keys parsed_category parsed_intent parsed_key_terms parsed_is_preference parsed_preference_type parsed_preference_value parsed_is_generic_food_question)

theorem classify_query_populated_witness:
  "complete sample_env (length (calls sample_guide)) (ClassificationPrompt ''Key Terms:'')
     = Inr ''Category: Food and Dining\<newline>Intent: eat\<newline>Is Generic Food Question: Yes'' \<and>
   (\<exists>c ls. fst (classify_query sample_env sample_guide ''Key Terms:'') = Inr c \<and>
          ls = split CHR 0x0A
                 (strip sample_env ''Category: Food and Dining\<newline>Intent: eat\<newline>Is Generic Food Question: Yes'') \<and>
          map fst c = classification_keys \<and>
          getitem c ''category'' = Inr (parsed_field sample_env ''Category:'' id '''' ls) \<and>
          getitem c ''intent'' = Inr (parsed_field sample_env ''Intent:'' id '''' ls) \<and>
          getitem c ''key_terms'' = Inr (parsed_field sample_env ''Key Terms:'' id '''' ls) \<and>
          getitem c ''is_preference'' = Inr (parsed_field sample_env ''Is Preference:'' (lower sample_env) ''no'' ls) \<and>
          getitem c ''preference_type'' = Inr (parsed_field sample_env ''Preference Type:'' (lower sample_env) ''none'' ls) \<and>
          getitem c ''preference_value'' = Inr (parsed_field sample_env ''Preference Value:'' (lower sample_env) ''none'' ls) \<and>
          getitem c ''is_generic_food_question'' = Inr (parsed_field sample_env ''Is Generic Food Question:'' (lower sample_env) ''none'' ls))"
proof -
  have h: "complete sample_env (length (calls sample_guide)) (ClassificationPrompt ''Key Terms:'')
     = Inr ''Category: Food and Dining\<newline>Intent: eat\<newline>Is Generic Food Question: Yes''"
    by (simp add: sample_env_def)
  show ?thesis
    using h classify_query_populated [OF h] by simp
qed

subsection \<open>State changes of the operations\<close>

lemma invoke_simps [simp]:
  "fst (invoke env g p) = complete env (length (calls g)) p"
  "snd (invoke env g p) = g\<lparr>calls := calls g @ [Invoke p]\<rparr>"
  by (simp_all add: invoke_def)

lemma try_add_frame:
  "last_response (snd (try_add env g ctx)) = last_response g"
  "last_context (snd (try_add env g ctx)) = last_context g"
  "last_classification (snd (try_add env g ctx)) = last_classification g"
  "preferences (snd (try_add env g ctx)) = preferences g"
  "preferences_file (snd (try_add env g ctx)) = preferences_file g"
  "calls (snd (try_add env g ctx)) = calls g @ [Invoke (ExtractionPrompt ctx)]"
  unfolding try_add_def extract_venue_info_def invoke_def save_plan_def
  by (auto split: sum.splits prod.splits bool.splits)

lemma add_to_plan_frame:
  "last_response (snd (add_to_plan env g)) = last_response g"
  "last_context (snd (add_to_plan env g)) = last_context g"
  "last_classification (snd (add_to_plan env g)) = last_classification g"
  "preferences (snd (add_to_plan env g)) = preferences g"
  "preferences_file (snd (add_to_plan env g)) = preferences_file g"
  "calls (snd (add_to_plan env g)) = calls g @ extraction_calls g"
  unfolding add_to_plan_def extraction_calls_def print_error_def
  by (simp_all add: try_add_frame case_prod_beta split: option.splits sum.splits)

lemma recommend_unfold:
  "recommend env g c query =
     (case enhanced_query env (preferences g) c query of
        Inl e \<Rightarrow> (Inl e, g)
      | Inr q \<Rightarrow>
          (case retrieve env q 4 of
             Inl e \<Rightarrow> (Inl e, g\<lparr>calls := calls g @ [Search q 4]\<rparr>)
           | Inr results \<Rightarrow>
               if results = [] \<or> snd (hd results) < 7 / 10
               then (Inr no_match_message, g\<lparr>calls := calls g @ [Search q 4]\<rparr>)
               else
                 (case initial_prompt (preferences g) c
                         (join context_separator (map fst results)) query of
                    Inl e \<Rightarrow>
                      (Inl e, g\<lparr>calls := calls g @ [Search q 4],
                                 last_context := Some (join context_separator (map fst results))\<rparr>)
                  | Inr p \<Rightarrow>
                      (case complete env (Suc (length (calls g))) p of
                         Inl e \<Rightarrow>
                           (Inl e, g\<lparr>calls := calls g @ [Search q 4, Invoke p],
                                 last_context := Some (join context_separator (map fst results))\<rparr>)
                       | Inr content \<Rightarrow>
                           (Inr content,
                            g\<lparr>calls := calls g @ [Search q 4, Invoke p],
                              last_context := Some (join context_separator (map fst results)),
                              last_response := Some content\<rparr>)))))"
  unfolding recommend_def search_def invoke_def
  by (simp add: Let_def split: sum.splits list.splits)

lemma get_recommendations_unfold:
  assumes "\<not> is_plan_add env query"
  shows "get_recommendations env g query =
     (case complete env (length (calls g)) (ClassificationPrompt query) of
        Inl e \<Rightarrow> (Inl e, g\<lparr>calls := calls g @ [Invoke (ClassificationPrompt query)]\<rparr>)
      | Inr content \<Rightarrow>
          (let c = parse_classification env content;
               g2 = g\<lparr>calls := calls g @ [Invoke (ClassificationPrompt query)],
                      last_classification := Some c\<rparr>
           in case is_cuisine_preference c of
                Inl e \<Rightarrow> (Inl e, g2)
              | Inr True \<Rightarrow>
                  (case getitem c ''preference_value'' of
                     Inl e \<Rightarrow> (Inl e, g2)
                   | Inr v \<Rightarrow>
                       (case update_preference g2 ''cuisine'' (JStr v) of
                          Inl e \<Rightarrow> (Inl e, g2)
                        | Inr g3 \<Rightarrow> (Inr (preference_noted v), g3)))
              | Inr False \<Rightarrow> recommend env g2 c query))"
  using assms unfolding get_recommendations_def classify_query_def invoke_def
  by (simp add: Let_def split: sum.splits)


lemma update_preference_Inr:
  "update_preference g t v = Inr g' \<longleftrightarrow>
     (\<exists>d. preferences g = JObj d \<and>
          g' = g\<lparr>preferences := JObj (setitem t v d),
                 preferences_file := Content (JObj (setitem t v d))\<rparr>)"
  unfolding update_preference_def save_preferences_def
  by (auto split: json.splits)

lemma update_preference_frame:
  assumes "update_preference g t v = Inr g'"
  shows "calls g' = calls g" "last_response g' = last_response g"
    "last_context g' = last_context g" "last_classification g' = last_classification g"
    "plan g' = plan g" "plan_file g' = plan_file g"
  using assms unfolding update_preference_def save_preferences_def
  by (auto split: json.splits)

lemma recommend_search:
  assumes "calls (snd (recommend env g c query)) = calls g @ cs" and "Search q k \<in> set cs"
  shows "k = 4 \<and> enhanced_query env (preferences g) c query = Inr q"
  using assms by (auto simp: recommend_unfold split: sum.splits if_splits)

lemma search_logged:
  assumes run: "get_recommendations env g query = (r, g')"
    and cs: "calls g' = calls g @ cs"
    and search: "Search q k \<in> set cs"
  shows "k = 4 \<and> \<not> is_plan_add env query \<and>
     (\<exists>content. complete env (length (calls g)) (ClassificationPrompt query) = Inr content \<and>
        is_cuisine_preference (parse_classification env content) = Inr False \<and>
        enhanced_query env (preferences g) (parse_classification env content) query = Inr q \<and>
        (r, g') = recommend env
           (g\<lparr>calls := calls g @ [Invoke (ClassificationPrompt query)],
              last_classification := Some (parse_classification env content)\<rparr>)
           (parse_classification env content) query)"
proof (cases "is_plan_add env query")
  case True
  with run have "g' = snd (add_to_plan env g)"
    by (simp add: get_recommendations_def case_prod_beta)
  with cs search show ?thesis
    by (auto simp: add_to_plan_frame extraction_calls_def split: option.splits if_splits)
next
  case False
  note unfold = get_recommendations_unfold [OF False, of g]
  show ?thesis
  proof (cases "complete env (length (calls g)) (ClassificationPrompt query)")
    case (Inl e)
    with run cs search unfold show ?thesis by auto
  next
    case (Inr content)
    let ?c = "parse_classification env content"
    let ?g2 = "g\<lparr>calls := calls g @ [Invoke (ClassificationPrompt query)],
                  last_classification := Some ?c\<rparr>"
    show ?thesis
    proof (cases "is_cuisine_preference ?c")
      case (Inl e)
      with run cs search unfold Inr show ?thesis by (auto simp: Let_def)
    next
      case pref: (Inr b)
      show ?thesis
      proof (cases b)
        case True
        with run cs search unfold Inr pref show ?thesis
          by (auto simp: Let_def update_preference_Inr split: sum.splits)
      next
        case False
        with run unfold Inr pref have rec: "recommend env ?g2 ?c query = (r, g')"
          by (simp add: Let_def)
        then have "calls (snd (recommend env ?g2 ?c query)) = calls ?g2 @ tl cs"
          using cs search by (auto simp: recommend_unfold split: sum.splits if_splits)
        moreover have "Search q k \<in> set (tl cs)"
          using rec cs search by (auto simp: recommend_unfold split: sum.splits if_splits)
        ultimately have "k = 4 \<and> enhanced_query env (preferences ?g2) ?c query = Inr q"
          by (rule recommend_search)
        with False Inr pref rec \<open>\<not> is_plan_add env query\<close> show ?thesis by simp
      qed
    qed
  qed
qed

text \<open>
  C1. In a call of get\_recommendations that runs a retrieval (the call \<open>Search q k\<close>
  is among those the turn made) whose result is empty or has a top score below 0.7, the
  answer is exactly the fixed no-match message, and last\_context and last\_response are
  what they were before the call.
\<close>

theorem no_match_fallback:
  assumes run: "get_recommendations env g query = (r, g')"
    and cs: "calls g' = calls g @ cs"
    and search: "Search q k \<in> set cs"
    and results: "retrieve env q k = Inr results"
    and low: "results = [] \<or> snd (hd results) < 7 / 10"
  shows "r = Inr no_match_message \<and> last_context g' = last_context g \<and>
         last_response g' = last_response g"
proof -
  from search_logged [OF run cs search] obtain content where
    k: "k = 4" and
    q: "enhanced_query env (preferences g) (parse_classification env content) query = Inr q" and
    rec: "(r, g') = recommend env
           (g\<lparr>calls := calls g @ [Invoke (ClassificationPrompt query)],
              last_classification := Some (parse_classification env content)\<rparr>)
           (parse_classification env content) query"
    by blast
  from rec q results low k show ?thesis
    by (auto simp: recommend_unfold)
qed

theorem no_match_fallback_witness:
  "get_recommendations low_score_env sample_guide ''where to eat'' =
     (Inr no_match_message, snd (get_recommendations low_score_env sample_guide ''where to eat'')) \<and>
   calls (snd (get_recommendations low_score_env sample_guide ''where to eat'')) =
     calls sample_guide @
       [Invoke (ClassificationPrompt ''where to eat''),
        Search ''where to eat mexican restaurant'' 4] \<and>
   retrieve low_score_env ''where to eat mexican restaurant'' 4 = Inr [(''Other'', 1 / 2)] \<and>
   last_context (snd (get_recommendations low_score_env sample_guide ''where to eat'')) =
     last_context sample_guide \<and>
   last_response (snd (get_recommendations low_score_env sample_guide ''where to eat'')) =
     last_response sample_guide"
proof -
  let ?run = "get_recommendations low_score_env sample_guide ''where to eat''"
  have run: "?run = (fst ?run, snd ?run)"
    by simp
  have cs: "calls (snd ?run) = calls sample_guide @
       [Invoke (ClassificationPrompt ''where to eat''),
        Search ''where to eat mexican restaurant'' 4]"
    by code_simp
  have search: "Search ''where to eat mexican restaurant'' 4 \<in>
      set [Invoke (ClassificationPrompt ''where to eat''),
           Search ''where to eat mexican restaurant'' 4]"
    by simp
  have results: "retrieve low_score_env ''where to eat mexican restaurant'' 4 = Inr [(''Other'', 1 / 2)]"
    by (simp add: low_score_env_def sample_env_def)
  have low: "[(''Other'', 1 / 2 :: real)] = [] \<or> snd (hd [(''Other'', 1 / 2 :: real)]) < 7 / 10"
    by simp
  from no_match_fallback [OF run cs search results low] cs results show ?thesis
    by (metis prod.collapse)
qed

lemma recommend_frame:
  "last_classification (snd (recommend env g c query)) = last_classification g"
  "plan (snd (recommend env g c query)) = plan g"
  "plan_file (snd (recommend env g c query)) = plan_file g"
  "preferences (snd (recommend env g c query)) = preferences g"
  "preferences_file (snd (recommend env g c query)) = preferences_file g"
  by (simp_all add: recommend_unfold split: sum.splits)

lemma enhanced_query_Inr:
  assumes "enhanced_query env prefs c query = Inr q"
  shows "q = (if augments prefs c then augmented_query env prefs query else query)"
    and "augments prefs c \<longleftrightarrow> q \<noteq> query"
  using assms unfolding enhanced_query_def augments_def augmented_query_def ebind_def
  by (auto split: sum.splits if_splits)

text \<open>
  C6, as amended. In a call of get\_recommendations that runs a retrieval, the retrieval
  asks for 4 results and its query is the original query with a space, the stored cuisine
  and \<open>restaurant\<close> appended if and only if the category of the turn's classification is
  Food and Dining or Recommendations, the stored cuisine is there and true in a
  condition (neither null nor the empty string), and the question is flagged generic;
  in every other case the query is the original one.
\<close>

theorem query_augmentation:
  assumes run: "get_recommendations env g query = (r, g')"
    and cs: "calls g' = calls g @ cs"
    and search: "Search q k \<in> set cs"
  shows "k = 4 \<and>
     (\<exists>c. last_classification g' = Some c \<and>
        q = (if augments (preferences g) c then augmented_query env (preferences g) query
             else query) \<and>
        (augments (preferences g) c \<longleftrightarrow> q \<noteq> query))"
proof -
  from search_logged [OF run cs search] obtain content where
    k: "k = 4" and
    q: "enhanced_query env (preferences g) (parse_classification env content) query = Inr q" and
    rec: "(r, g') = recommend env
           (g\<lparr>calls := calls g @ [Invoke (ClassificationPrompt query)],
              last_classification := Some (parse_classification env content)\<rparr>)
           (parse_classification env content) query"
    by blast
  from rec have "g' = snd (recommend env
           (g\<lparr>calls := calls g @ [Invoke (ClassificationPrompt query)],
              last_classification := Some (parse_classification env content)\<rparr>)
           (parse_classification env content) query)"
    by (metis snd_conv)
  then have "last_classification g' = Some (parse_classification env content)"
    by (simp add: recommend_frame)
  with k enhanced_query_Inr [OF q] show ?thesis
    by blast
qed

theorem query_augmentation_witness:
  "get_recommendations low_score_env sample_guide ''where to eat'' =
     (Inr no_match_message, snd (get_recommendations low_score_env sample_guide ''where to eat'')) \<and>
   calls (snd (get_recommendations low_score_env sample_guide ''where to eat'')) =
     calls sample_guide @
       [Invoke (ClassificationPrompt ''where to eat''),
        Search ''where to eat mexican restaurant'' 4] \<and>
   (\<exists>c. last_classification (snd (get_recommendations low_score_env sample_guide ''where to eat''))
          = Some c \<and>
        augments (preferences sample_guide) c \<and>
        ''where to eat mexican restaurant'' =
          augmented_query low_score_env (preferences sample_guide) ''where to eat'')"
proof -
  let ?run = "get_recommendations low_score_env sample_guide ''where to eat''"
  have run: "?run = (Inr no_match_message, snd ?run)"
    by code_simp
  have cs: "calls (snd ?run) = calls sample_guide @
       [Invoke (ClassificationPrompt ''where to eat''),
        Search ''where to eat mexican restaurant'' 4]"
    by code_simp
  have search: "Search ''where to eat mexican restaurant'' 4 \<in>
      set [Invoke (ClassificationPrompt ''where to eat''),
           Search ''where to eat mexican restaurant'' 4]"
    by simp
  have "''where to eat mexican restaurant'' \<noteq> ''where to eat''"
    by simp
  with query_augmentation [OF run cs search] run cs show ?thesis
    by metis
qed

theorem query_augmentation_counterexample:
  "subscript (preferences blank_cuisine_guide) ''cuisine'' = Inr (JStr '''') \<and>
   JStr '''' \<noteq> JNull \<and>
   last_classification (snd (get_recommendations low_score_env blank_cuisine_guide ''where to eat''))
     = Some [(''category'', ''Food and Dining''), (''intent'', ''eat''), (''key_terms'', ''''),
             (''is_preference'', ''no''), (''preference_type'', ''none''),
             (''preference_value'', ''none''), (''is_generic_food_question'', ''yes'')] \<and>
   calls (snd (get_recommendations low_score_env blank_cuisine_guide ''where to eat'')) =
     calls blank_cuisine_guide @
       [Invoke (ClassificationPrompt ''where to eat''), Search ''where to eat'' 4] \<and>
   ''where to eat'' \<noteq> ''where to eat'' @ '' '' @ '''' @ '' restaurant''"
  by code_simp

subsection \<open>The plan-add phrases and follow-ups\<close>

lemma startswith_iff: "startswith s p \<longleftrightarrow> (\<exists>t. s = p @ t)"
  by (induction s p rule: startswith.induct) auto

lemma contains_iff: "contains s sub \<longleftrightarrow> (\<exists>pre post. s = pre @ sub @ post)"
proof (induction s)
  case Nil
  then show ?case by auto
next
  case (Cons c cs)
  show ?case
  proof
    assume "contains (c # cs) sub"
    then consider "startswith (c # cs) sub" | "contains cs sub" by auto
    then show "\<exists>pre post. c # cs = pre @ sub @ post"
    proof cases
      case 1
      then obtain t where "c # cs = sub @ t" by (auto simp: startswith_iff)
      then have "c # cs = [] @ sub @ t" by simp
      then show ?thesis by blast
    next
      case 2
      with Cons obtain pre post where "cs = pre @ sub @ post" by blast
      then have "c # cs = (c # pre) @ sub @ post" by simp
      then show ?thesis by blast
    qed
  next
    assume "\<exists>pre post. c # cs = pre @ sub @ post"
    then obtain pre post where eq: "c # cs = pre @ sub @ post" by blast
    show "contains (c # cs) sub"
    proof (cases pre)
      case Nil
      with eq have "startswith (c # cs) sub" by (auto simp: startswith_iff)
      then show ?thesis by simp
    next
      case (Cons a pre')
      with eq have "cs = pre' @ sub @ post" by simp
      with Cons.IH have "contains cs sub" by blast
      then show ?thesis by simp
    qed
  qed
qed

lemma is_plan_add_iff:
  "is_plan_add env q \<longleftrightarrow>
     (\<exists>phrase pre post. phrase \<in> set plan_add_phrases \<and> lower env q = pre @ phrase @ post)"
  unfolding is_plan_add_def list_ex_iff contains_iff by blast

text \<open>
  C7. When the lower-cased utterance contains one of the four phrases, get\_recommendations
  and handle\_follow\_up are add\_to\_plan on the current state (which works from
  last\_context), is\_follow\_up\_question is true and calls nothing, and the only external
  call add\_to\_plan makes is the extraction: no classification is run.
\<close>

theorem plan_add_short_circuit:
  assumes "phrase \<in> set plan_add_phrases" and "lower env q = pre @ phrase @ post"
  shows "get_recommendations env g q = (Inr (fst (add_to_plan env g)), snd (add_to_plan env g)) \<and>
         handle_follow_up env g q = (Inr (fst (add_to_plan env g)), snd (add_to_plan env g)) \<and>
         is_follow_up_question env g q = (Inr True, g) \<and>
         calls (snd (add_to_plan env g)) = calls g @ extraction_calls g \<and>
         \<not> list_ex is_classification (extraction_calls g)"
proof -
  from assms have "is_plan_add env q"
    unfolding is_plan_add_iff by blast
  then show ?thesis
    by (simp add: get_recommendations_def handle_follow_up_def is_follow_up_question_def
        case_prod_beta add_to_plan_frame extraction_calls_def split: option.splits)
qed

theorem plan_add_short_circuit_witness:
  "''add it to'' \<in> set plan_add_phrases \<and>
   lower sample_env ''Please ADD IT TO my plan'' = ''please '' @ ''add it to'' @ '' my plan'' \<and>
   get_recommendations sample_env recommended_guide ''Please ADD IT TO my plan'' =
     (Inr (fst (add_to_plan sample_env recommended_guide)),
      snd (add_to_plan sample_env recommended_guide)) \<and>
   handle_follow_up sample_env recommended_guide ''Please ADD IT TO my plan'' =
     (Inr (fst (add_to_plan sample_env recommended_guide)),
      snd (add_to_plan sample_env recommended_guide)) \<and>
   is_follow_up_question sample_env recommended_guide ''Please ADD IT TO my plan'' =
     (Inr True, recommended_guide) \<and>
   fst (add_to_plan sample_env recommended_guide) = ''Added Joe Pizza to your NYC plan!''"
proof -
  have phrase: "''add it to'' \<in> set plan_add_phrases"
    by (simp add: plan_add_phrases_def)
  have lowered: "lower sample_env ''Please ADD IT TO my plan'' = ''please '' @ ''add it to'' @ '' my plan''"
    by code_simp
  have added: "fst (add_to_plan sample_env recommended_guide) = ''Added Joe Pizza to your NYC plan!''"
    by code_simp
  from plan_add_short_circuit [OF phrase lowered, of recommended_guide] phrase lowered added
  show ?thesis
    by simp
qed

lemma handle_follow_up_unfold:
  assumes "\<not> is_plan_add env question"
  shows "handle_follow_up env g question =
     (case (last_response g, last_context g) of
        (Some previous_response, Some ctx) \<Rightarrow>
          if previous_response = [] \<or> ctx = [] then (Inr no_previous_message, g)
          else
            (case complete env (length (calls g)) (ClassificationPrompt question) of
               Inl e \<Rightarrow> (Inl e, g\<lparr>calls := calls g @ [Invoke (ClassificationPrompt question)]\<rparr>)
             | Inr content \<Rightarrow>
                 (case follow_up_prompt g (parse_classification env content) ctx previous_response
                         question of
                    Inl e \<Rightarrow> (Inl e, g\<lparr>calls := calls g @ [Invoke (ClassificationPrompt question)]\<rparr>)
                  | Inr p \<Rightarrow>
                      (complete env (Suc (length (calls g))) p,
                       g\<lparr>calls := calls g @ [Invoke (ClassificationPrompt question), Invoke p]\<rparr>)))
      | _ \<Rightarrow> (Inr no_previous_message, g))"
  using assms unfolding handle_follow_up_def classify_query_def invoke_def follow_up_prompt_def
  by (simp split: option.splits sum.splits)

lemma handle_follow_up_frame:
  shows "last_response (snd (handle_follow_up env g question)) = last_response g"
    and "last_context (snd (handle_follow_up env g question)) = last_context g"
    and "last_classification (snd (handle_follow_up env g question)) = last_classification g"
    and "preferences (snd (handle_follow_up env g question)) = preferences g"
    and "preferences_file (snd (handle_follow_up env g question)) = preferences_file g"
proof -
  have "last_response (snd (handle_follow_up env g question)) = last_response g \<and>
        last_context (snd (handle_follow_up env g question)) = last_context g \<and>
        last_classification (snd (handle_follow_up env g question)) = last_classification g \<and>
        preferences (snd (handle_follow_up env g question)) = preferences g \<and>
        preferences_file (snd (handle_follow_up env g question)) = preferences_file g"
  proof (cases "is_plan_add env question")
    case True
    then show ?thesis
      by (simp add: handle_follow_up_def case_prod_beta add_to_plan_frame)
  next
    case False
    then show ?thesis
      by (simp add: handle_follow_up_unfold split: option.splits sum.splits)
  qed
  then show "last_response (snd (handle_follow_up env g question)) = last_response g"
    and "last_context (snd (handle_follow_up env g question)) = last_context g"
    and "last_classification (snd (handle_follow_up env g question)) = last_classification g"
    and "preferences (snd (handle_follow_up env g question)) = preferences g"
    and "preferences_file (snd (handle_follow_up env g question)) = preferences_file g"
    by simp_all
qed

text \<open>
  C8. A follow-up that is no plan-add phrase, asked when there are a previous response
  and a previous context (both non-empty, which is what line 373 tests), returns the
  answer of the completion service to the follow-up prompt built from that context and
  response, and leaves last\_context and last\_response (and last\_classification) as
  they were.
\<close>

theorem follow_up_keeps_context:
  assumes "\<not> is_plan_add env question"
    and "last_response g = Some previous" and "previous \<noteq> []"
    and "last_context g = Some ctx" and "ctx \<noteq> []"
    and "complete env (length (calls g)) (ClassificationPrompt question) = Inr content"
    and "getitem (parse_classification env content) ''category'' = Inr category"
    and "getitem (parse_classification env content) ''intent'' = Inr intent"
    and "complete env (Suc (length (calls g)))
           (FollowUpPrompt ctx previous question category intent (preferences g)) = Inr answer"
  shows "fst (handle_follow_up env g question) = Inr answer \<and>
         last_context (snd (handle_follow_up env g question)) = Some ctx \<and>
         last_response (snd (handle_follow_up env g question)) = Some previous \<and>
         last_classification (snd (handle_follow_up env g question)) = last_classification g"
  using assms
  by (simp add: handle_follow_up_unfold follow_up_prompt_def ebind_def)

theorem follow_up_keeps_context_witness:
  "\<not> is_plan_add sample_env ''how much is it'' \<and>
   last_response recommended_guide = Some ''Go to Joe Pizza'' \<and>
   last_context recommended_guide =
     Some (join context_separator [''Joe Pizza, 7 Carmine St'', ''Other'']) \<and>
   fst (handle_follow_up sample_env recommended_guide ''how much is it'') = Inr ''It is cheap'' \<and>
   last_context (snd (handle_follow_up sample_env recommended_guide ''how much is it'')) =
     Some (join context_separator [''Joe Pizza, 7 Carmine St'', ''Other'']) \<and>
   last_response (snd (handle_follow_up sample_env recommended_guide ''how much is it'')) =
     Some ''Go to Joe Pizza''"
proof -
  let ?content = "''Category: Food and Dining\<newline>Intent: eat\<newline>Is Generic Food Question: Yes''"
  let ?ctx = "join context_separator [''Joe Pizza, 7 Carmine St'', ''Other'']"
  have h1: "\<not> is_plan_add sample_env ''how much is it''"
    by code_simp
  have h2: "last_response recommended_guide = Some ''Go to Joe Pizza''"
    by code_simp
  have h3: "''Go to Joe Pizza'' \<noteq> []"
    by simp
  have h4: "last_context recommended_guide = Some ?ctx"
    by code_simp
  have h5: "?ctx \<noteq> []"
    by code_simp
  have h6: "complete sample_env (length (calls recommended_guide))
              (ClassificationPrompt ''how much is it'') = Inr ?content"
    by (simp add: sample_env_def)
  have h7: "getitem (parse_classification sample_env ?content) ''category'' = Inr ''Food and Dining''"
    by code_simp
  have h8: "getitem (parse_classification sample_env ?content) ''intent'' = Inr ''eat''"
    by code_simp
  have h9: "complete sample_env (Suc (length (calls recommended_guide)))
              (FollowUpPrompt ?ctx ''Go to Joe Pizza'' ''how much is it'' ''Food and Dining'' ''eat''
                 (preferences recommended_guide)) = Inr ''It is cheap''"
    by (simp add: sample_env_def)
  from follow_up_keeps_context [OF h1 h2 h3 h4 h5 h6 h7 h8 h9] h1 h2 h4 show ?thesis
    by simp
qed

subsection \<open>The stores\<close>

lemma update_all_result:
  assumes "preferences g = JObj d"
  shows "\<exists>g' d'. update_all g us = Inr g' \<and> preferences g' = JObj d' \<and>
           map_of d' = map_of d ++ map_of (rev us) \<and>
           (us \<noteq> [] \<or> preferences_file g = Content (preferences g)
              \<longrightarrow> preferences_file g' = Content (preferences g'))"
  using assms
proof (induction us arbitrary: g d)
  case Nil
  then show ?case by simp
next
  case (Cons u us)
  let ?g1 = "g\<lparr>preferences := JObj (setitem (fst u) (snd u) d),
                 preferences_file := Content (JObj (setitem (fst u) (snd u) d))\<rparr>"
  have step: "update_preference g (fst u) (snd u) = Inr ?g1"
    using Cons.prems by (simp add: update_preference_Inr)
  have "preferences ?g1 = JObj (setitem (fst u) (snd u) d)"
    by simp
  from Cons.IH [OF this] obtain g' d' where
    run: "update_all ?g1 us = Inr g'" and prefs: "preferences g' = JObj d'" and
    m: "map_of d' = map_of (setitem (fst u) (snd u) d) ++ map_of (rev us)" and
    f: "preferences_file g' = Content (preferences g')"
    by auto
  have "map_of d' = map_of d ++ map_of (rev (u # us))"
    unfolding m map_of_setitem by (cases u) (auto simp: map_add_def fun_eq_iff split: option.splits)
  with step run prefs f show ?case
    by simp
qed

text \<open>
  C4. After any sequence of update\_preference calls on a preferences dict, the value
  stored for a preference type is the one passed by the last call for that type, and it
  is the value found again when the store is loaded again, by load\_preferences on the
  same guide or by a new guide created on the file (which fails only when the plan file
  cannot be read).
\<close>

theorem last_update_wins:
  assumes "preferences g = JObj d"
    and "us = before @ (t, v) # after" and "t \<notin> fst ` set after"
  shows "\<exists>g'. update_all g us = Inr g' \<and>
           subscript (preferences g') t = Inr v \<and>
           (\<exists>g''. load_preferences g' = Inr g'' \<and> subscript (preferences g'') t = Inr v) \<and>
           (case init (preferences_file g') plan_f of
              Inl e \<Rightarrow> plan_f = Unreadable
            | Inr g'' \<Rightarrow> subscript (preferences g'') t = Inr v)"
proof -
  from update_all_result [OF assms(1), of us] obtain g' d' where
    run: "update_all g us = Inr g'" and prefs: "preferences g' = JObj d'" and
    m: "map_of d' = map_of d ++ map_of (rev us)" and
    f: "preferences_file g' = Content (preferences g')"
    using assms(2) by auto
  have "map_of (rev after) t = None"
    using assms(3) by (simp add: map_of_eq_None_iff)
  then have "map_of (rev us) t = Some v"
    unfolding assms(2) by (simp add: map_add_def)
  then have "map_of d' t = Some v"
    unfolding m by (simp add: map_add_def)
  then have look: "subscript (preferences g') t = Inr v"
    by (simp add: prefs subscript_def getitem_def)
  have reload: "\<exists>g''. load_preferences g' = Inr g'' \<and> subscript (preferences g'') t = Inr v"
    using look by (simp add: load_preferences_def f)
  have restart: "case init (preferences_file g') plan_f of
              Inl e \<Rightarrow> plan_f = Unreadable
            | Inr g'' \<Rightarrow> subscript (preferences g'') t = Inr v"
    using look
    by (simp add: init_def ebind_def load_preferences_def load_plan_def save_plan_def f
        split: stored.splits json.splits)
  from run look reload restart show ?thesis
    by simp
qed

theorem last_update_wins_witness:
  "preferences sample_guide = JObj [(''cuisine'', JStr ''mexican'')] \<and>
   (\<exists>g'. update_all sample_guide
            [(''cuisine'', JStr ''thai''), (''diet'', JStr ''vegan''), (''cuisine'', JStr ''greek'')]
            = Inr g' \<and>
         subscript (preferences g') ''cuisine'' = Inr (JStr ''greek'') \<and>
         (\<exists>g''. load_preferences g' = Inr g'' \<and>
                subscript (preferences g'') ''cuisine'' = Inr (JStr ''greek'')) \<and>
         (\<exists>g''. init (preferences_file g') Missing = Inr g'' \<and>
                subscript (preferences g'') ''cuisine'' = Inr (JStr ''greek'')))"
proof -
  have h1: "preferences sample_guide = JObj [(''cuisine'', JStr ''mexican'')]"
    by code_simp
  have h2: "[(''cuisine'', JStr ''thai''), (''diet'', JStr ''vegan''), (''cuisine'', JStr ''greek'')]
      = [(''cuisine'', JStr ''thai''), (''diet'', JStr ''vegan'')] @ (''cuisine'', JStr ''greek'') # []"
    by simp
  have h3: "''cuisine'' \<notin> fst ` set ([] :: (string \<times> json) list)"
    by simp
  from last_update_wins [OF h1 h2 h3, where plan_f = Missing] h1 show ?thesis
    by (auto split: sum.splits)
qed

lemma load_missing_or_corrupt:
  "preferences_file g = Missing \<or> preferences_file g = Corrupt \<Longrightarrow>
     load_preferences g =
       Inr (g\<lparr>preferences := default_preferences, preferences_file := Content default_preferences\<rparr>)"
  "plan_file g = Missing \<or> plan_file g = Corrupt \<Longrightarrow>
     load_plan g = Inr (g\<lparr>plan := empty_plan, plan_file := Content empty_plan\<rparr>)"
  by (auto simp: load_preferences_def save_preferences_def load_plan_def save_plan_def)

text \<open>
  C9. The code at a preferences file and a plan file that hold the valid JSON text \<open>[]\<close>,
  which is not the expected structure of either. load\_preferences keeps the list as the
  preferences and leaves the file: nothing is reset, nothing is written, and the next
  update\_preference raises TypeError. load\_plan, on the same contents, checks the
  structure and resets the plan in memory, but leaves the file as it is.
\<close>

theorem load_wrong_shape:
  "preferences_file wrong_shape_guide = Content (JArr []) \<and>
   load_preferences wrong_shape_guide = Inr (wrong_shape_guide\<lparr>preferences := JArr []\<rparr>) \<and>
   JArr [] \<noteq> default_preferences \<and>
   update_preference (wrong_shape_guide\<lparr>preferences := JArr []\<rparr>) ''cuisine'' (JStr ''thai'')
     = Inl TypeError \<and>
   plan_file wrong_shape_guide = Content (JArr []) \<and>
   load_plan wrong_shape_guide = Inr (wrong_shape_guide\<lparr>plan := empty_plan\<rparr>) \<and>
   plan_file (wrong_shape_guide\<lparr>plan := empty_plan\<rparr>) \<noteq> Content empty_plan"
  by (simp add: wrong_shape_guide_def load_preferences_def load_plan_def default_preferences_def
      update_preference_def empty_plan_def)

subsection \<open>Session memory\<close>

lemma getitem_parsed:
  assumes "k \<in> set classification_keys"
  shows "\<exists>v. getitem (parse_classification env content) k = Inr v"
proof -
  have "k \<in> fst ` set (parse_classification env content)"
    using assms parse_classification_keys [of env content] by (metis list.set_map)
  then obtain v where "map_of (parse_classification env content) k = Some v"
    by (metis domD dom_map_of_conv_image_fst)
  then show ?thesis by (simp add: getitem_def)
qed

lemma initial_prompt_parsed:
  "\<exists>category intent key_terms passed. \<forall>ctx.
     initial_prompt prefs (parse_classification env content) ctx query =
       Inr (InitialPrompt ctx query category intent key_terms passed)"
proof -
  obtain category where c: "getitem (parse_classification env content) ''category'' = Inr category"
    using getitem_parsed [of "''category''" env content] by (auto simp: classification_keys_def)
  obtain intent where i: "getitem (parse_classification env content) ''intent'' = Inr intent"
    using getitem_parsed [of "''intent''" env content] by (auto simp: classification_keys_def)
  obtain key_terms where k: "getitem (parse_classification env content) ''key_terms'' = Inr key_terms"
    using getitem_parsed [of "''key_terms''" env content] by (auto simp: classification_keys_def)
  obtain generic where
    g: "getitem (parse_classification env content) ''is_generic_food_question'' = Inr generic"
    using getitem_parsed [of "''is_generic_food_question''" env content]
    by (auto simp: classification_keys_def)
  show ?thesis
    by (simp add: initial_prompt_def preferences_to_pass_def ebind_def c i k g)
qed

lemma get_recommendations_paths:
  assumes run: "get_recommendations env g query = (r, g')"
  obtains
    (plan_add) "is_plan_add env query" "g' = snd (add_to_plan env g)"
  | (no_search) "\<not> is_plan_add env query"
      "calls g' = calls g @ [Invoke (ClassificationPrompt query)]"
      "last_context g' = last_context g" "last_response g' = last_response g"
      "plan g' = plan g" "plan_file g' = plan_file g"
  | (recommend) content where "\<not> is_plan_add env query"
      "complete env (length (calls g)) (ClassificationPrompt query) = Inr content"
      "(r, g') = recommend env
           (g\<lparr>calls := calls g @ [Invoke (ClassificationPrompt query)],
              last_classification := Some (parse_classification env content)\<rparr>)
           (parse_classification env content) query"
proof (cases "is_plan_add env query")
  case True
  with run have "g' = snd (add_to_plan env g)"
    by (simp add: get_recommendations_def case_prod_beta)
  with True show ?thesis by (rule plan_add)
next
  case False
  note unfold = get_recommendations_unfold [OF False, of g]
  show ?thesis
  proof (cases "complete env (length (calls g)) (ClassificationPrompt query)")
    case (Inl e)
    with run unfold False show ?thesis by (intro no_search) auto
  next
    case (Inr content)
    show ?thesis
    proof (cases "is_cuisine_preference (parse_classification env content)")
      case (Inl e)
      with run unfold Inr False show ?thesis by (intro no_search) (auto simp: Let_def)
    next
      case pref: (Inr b)
      show ?thesis
      proof (cases b)
        case True
        with run unfold Inr pref False show ?thesis
          by (intro no_search) (auto simp: Let_def update_preference_Inr split: sum.splits)
      next
        case b: False
        with run unfold Inr pref have "(r, g') = recommend env
           (g\<lparr>calls := calls g @ [Invoke (ClassificationPrompt query)],
              last_classification := Some (parse_classification env content)\<rparr>)
           (parse_classification env content) query"
          by (simp add: Let_def)
        with False Inr show ?thesis by (rule recommend)
      qed
    qed
  qed
qed

lemma classified:
  assumes "\<not> is_plan_add env query"
    and "complete env (length (calls g)) (ClassificationPrompt query) = Inr content"
  shows "last_classification (snd (get_recommendations env g query))
           = Some (parse_classification env content)"
  using assms
  by (simp add: get_recommendations_unfold Let_def recommend_frame update_preference_Inr
      split: sum.splits bool.splits) auto

lemma without_initial_prompt:
  assumes run: "get_recommendations env g query = (r, g')"
    and cs: "calls g' = calls g @ cs"
    and none: "\<not> list_ex is_initial cs"
  shows "last_context g' = last_context g \<and> last_response g' = last_response g"
  using run
proof (cases rule: get_recommendations_paths)
  case plan_add
  then show ?thesis by (simp add: add_to_plan_frame)
next
  case no_search
  then show ?thesis by simp
next
  case (recommend content)
  obtain category intent key_terms passed where
    p: "\<And>ctx. initial_prompt (preferences g) (parse_classification env content) ctx query =
       Inr (InitialPrompt ctx query category intent key_terms passed)"
    using initial_prompt_parsed [of "preferences g" env content query] by blast
  from recommend(3) cs none show ?thesis
    by (auto simp: recommend_unfold p split: sum.splits if_splits)
qed


lemma initial_prompt_Inr:
  assumes "initial_prompt prefs c ctx query = Inr (InitialPrompt ctx' q category intent key_terms passed)"
  shows "ctx' = ctx \<and> q = query \<and> getitem c ''category'' = Inr category \<and>
         getitem c ''intent'' = Inr intent \<and> getitem c ''key_terms'' = Inr key_terms"
  using assms unfolding initial_prompt_def ebind_def
  by (auto split: sum.splits)

lemma with_initial_prompt:
  assumes run: "get_recommendations env g query = (Inr answer, g')"
    and cs: "calls g' = calls g @ cs"
    and prompt: "Invoke (InitialPrompt ctx q category intent key_terms passed) \<in> set cs"
  shows "last_response g' = Some answer \<and> last_context g' = Some ctx \<and>
         (\<exists>c. last_classification g' = Some c \<and> getitem c ''category'' = Inr category \<and>
              getitem c ''intent'' = Inr intent \<and> getitem c ''key_terms'' = Inr key_terms)"
  using run
proof (cases rule: get_recommendations_paths)
  case plan_add
  with cs prompt show ?thesis
    by (auto simp: add_to_plan_frame extraction_calls_def split: option.splits if_splits)
next
  case no_search
  with cs prompt show ?thesis by auto
next
  case (recommend content)
  from recommend(3) cs prompt show ?thesis
    by (auto simp: recommend_unfold split: sum.splits if_splits dest!: initial_prompt_Inr)
qed

lemma get_plan_summary_frame:
  "last_response (snd (get_plan_summary env g)) = last_response g"
  "last_context (snd (get_plan_summary env g)) = last_context g"
  "last_classification (snd (get_plan_summary env g)) = last_classification g"
  "plan (snd (get_plan_summary env g)) = plan g"
  "plan_file (snd (get_plan_summary env g)) = plan_file g"
  unfolding get_plan_summary_def invoke_def print_error_def
  by (simp_all split: sum.splits)

lemma generate_day_plan_frame:
  "last_response (snd (generate_day_plan env g)) = last_response g"
  "last_context (snd (generate_day_plan env g)) = last_context g"
  "last_classification (snd (generate_day_plan env g)) = last_classification g"
  "plan (snd (generate_day_plan env g)) = plan g"
  "plan_file (snd (generate_day_plan env g)) = plan_file g"
  unfolding generate_day_plan_def invoke_def print_error_def
  by (simp_all split: sum.splits)

lemma init_session:
  "case init prefs_f plan_f of
     Inl e \<Rightarrow> prefs_f = Unreadable \<or> plan_f = Unreadable
   | Inr g \<Rightarrow> last_response g = None \<and> last_context g = None \<and> last_classification g = None"
  unfolding init_def ebind_def load_plan_def load_preferences_def save_plan_def
    save_preferences_def
  by (simp split: stored.splits json.splits)

text \<open>
  C5, as amended. last\_response, last\_context and last\_classification are empty after
  \<open>__init__\<close> (which fails only when one of the two files cannot be read). A successful recommendation (get\_recommendations returns the answer to the
  initial prompt it sent) overwrites all three with that answer, the context of that
  prompt and the classification of the turn. A get\_recommendations call that sends no
  initial prompt (preference statement, no-match retrieval, plan-add phrase) leaves
  last\_context and last\_response as they were, but every get\_recommendations call that
  classified its query has overwritten last\_classification with the classification,
  also on a preference statement and on a no-match retrieval. A follow-up and the plan
  commands (add\_to\_plan, get\_plan\_summary, generate\_day\_plan) change none of the three.
\<close>

theorem session_memory_lifecycle:
  "(case init prefs_f plan_f of
      Inl e \<Rightarrow> prefs_f = Unreadable \<or> plan_f = Unreadable
    | Inr g0 \<Rightarrow> last_response g0 = None \<and> last_context g0 = None \<and>
               last_classification g0 = None) \<and>
   (get_recommendations env1 g1 query1 = (Inr answer, g1') \<and> calls g1' = calls g1 @ cs1 \<and>
    Invoke (InitialPrompt ctx q category intent key_terms passed) \<in> set cs1 \<longrightarrow>
      last_response g1' = Some answer \<and> last_context g1' = Some ctx \<and>
      (\<exists>c. last_classification g1' = Some c \<and> getitem c ''category'' = Inr category \<and>
           getitem c ''intent'' = Inr intent \<and> getitem c ''key_terms'' = Inr key_terms)) \<and>
   (get_recommendations env2 g2 query2 = (r2, g2') \<and> calls g2' = calls g2 @ cs2 \<and>
    \<not> list_ex is_initial cs2 \<longrightarrow>
      last_context g2' = last_context g2 \<and> last_response g2' = last_response g2) \<and>
   (\<not> is_plan_add env3 query3 \<and>
    complete env3 (length (calls g3)) (ClassificationPrompt query3) = Inr content \<longrightarrow>
      last_classification (snd (get_recommendations env3 g3 query3))
        = Some (parse_classification env3 content)) \<and>
   (last_response (snd (handle_follow_up env g question)) = last_response g \<and>
    last_context (snd (handle_follow_up env g question)) = last_context g \<and>
    last_classification (snd (handle_follow_up env g question)) = last_classification g) \<and>
   (last_response (snd (add_to_plan env g)) = last_response g \<and>
    last_context (snd (add_to_plan env g)) = last_context g \<and>
    last_classification (snd (add_to_plan env g)) = last_classification g) \<and>
   (last_response (snd (get_plan_summary env g)) = last_response g \<and>
    last_context (snd (get_plan_summary env g)) = last_context g \<and>
    last_classification (snd (get_plan_summary env g)) = last_classification g) \<and>
   (last_response (snd (generate_day_plan env g)) = last_response g \<and>
    last_context (snd (generate_day_plan env g)) = last_context g \<and>
    last_classification (snd (generate_day_plan env g)) = last_classification g)"
  using with_initial_prompt [of env1 g1 query1 answer g1' cs1 ctx q category intent key_terms passed]
    without_initial_prompt [of env2 g2 query2 r2 g2' cs2]
    classified [of env3 query3 g3 content]
    init_session [of prefs_f plan_f]
  by (simp add: handle_follow_up_frame add_to_plan_frame get_plan_summary_frame
      generate_day_plan_frame)

theorem session_memory_lifecycle_witness:
  "get_recommendations sample_env sample_guide ''where to eat'' =
     (Inr ''Go to Joe Pizza'', recommended_guide) \<and>
   calls recommended_guide = calls sample_guide @
     [Invoke (ClassificationPrompt ''where to eat''),
      Search ''where to eat mexican restaurant'' 4,
      Invoke (InitialPrompt (join context_separator [''Joe Pizza, 7 Carmine St'', ''Other''])
                ''where to eat'' ''Food and Dining'' ''eat'' []
                (JObj [(''cuisine'', JStr ''mexican'')]))] \<and>
   last_response recommended_guide = Some ''Go to Joe Pizza'' \<and>
   last_context recommended_guide =
     Some (join context_separator [''Joe Pizza, 7 Carmine St'', ''Other'']) \<and>
   get_recommendations low_score_env sample_guide ''where to eat'' =
     (Inr no_match_message, snd (get_recommendations low_score_env sample_guide ''where to eat'')) \<and>
   calls (snd (get_recommendations low_score_env sample_guide ''where to eat'')) =
     calls sample_guide @
       [Invoke (ClassificationPrompt ''where to eat''),
        Search ''where to eat mexican restaurant'' 4] \<and>
   last_context (snd (get_recommendations low_score_env sample_guide ''where to eat''))
     = last_context sample_guide \<and>
   last_response (snd (get_recommendations low_score_env sample_guide ''where to eat''))
     = last_response sample_guide \<and>
   \<not> is_plan_add blank_preference_env ''i like food'' \<and>
   complete blank_preference_env (length (calls sample_guide)) (ClassificationPrompt ''i like food'')
     = Inr ''Is Preference: yes\<newline>Preference Type: cuisine\<newline>Preference Value:'' \<and>
   last_classification (snd (get_recommendations blank_preference_env sample_guide ''i like food''))
     = Some (parse_classification blank_preference_env
               ''Is Preference: yes\<newline>Preference Type: cuisine\<newline>Preference Value:'')"
proof -
  let ?ctx = "join context_separator [''Joe Pizza, 7 Carmine St'', ''Other'']"
  let ?low = "get_recommendations low_score_env sample_guide ''where to eat''"
  let ?content = "''Is Preference: yes\<newline>Preference Type: cuisine\<newline>Preference Value:''"
  have run1: "get_recommendations sample_env sample_guide ''where to eat'' =
     (Inr ''Go to Joe Pizza'', recommended_guide)"
    by code_simp
  have cs1: "calls recommended_guide = calls sample_guide @
     [Invoke (ClassificationPrompt ''where to eat''),
      Search ''where to eat mexican restaurant'' 4,
      Invoke (InitialPrompt ?ctx ''where to eat'' ''Food and Dining'' ''eat'' []
                (JObj [(''cuisine'', JStr ''mexican'')]))]"
    by code_simp
  have run2: "?low = (Inr no_match_message, snd ?low)"
    by code_simp
  have cs2: "calls (snd ?low) = calls sample_guide @
       [Invoke (ClassificationPrompt ''where to eat''),
        Search ''where to eat mexican restaurant'' 4]"
    by code_simp
  have h3: "\<not> is_plan_add blank_preference_env ''i like food''"
    by code_simp
  have c3: "complete blank_preference_env (length (calls sample_guide))
      (ClassificationPrompt ''i like food'') = Inr ?content"
    by (simp add: blank_preference_env_def sample_env_def)
  from session_memory_lifecycle [where ?env1.0 = sample_env and ?g1.0 = sample_guide
      and ?query1.0 = "''where to eat''" and answer = "''Go to Joe Pizza''"
      and ?g1' = recommended_guide
      and ?cs1.0 = "[Invoke (ClassificationPrompt ''where to eat''),
        Search ''where to eat mexican restaurant'' 4,
        Invoke (InitialPrompt ?ctx ''where to eat'' ''Food and Dining'' ''eat'' []
                (JObj [(''cuisine'', JStr ''mexican'')]))]"
      and ctx = ?ctx and q = "''where to eat''" and category = "''Food and Dining''"
      and intent = "''eat''" and key_terms = "[]"
      and passed = "JObj [(''cuisine'', JStr ''mexican'')]"
      and ?env2.0 = low_score_env and ?g2.0 = sample_guide and ?query2.0 = "''where to eat''"
      and ?r2.0 = "Inr no_match_message" and ?g2' = "snd ?low"
      and ?cs2.0 = "[Invoke (ClassificationPrompt ''where to eat''),
        Search ''where to eat mexican restaurant'' 4]"
      and ?env3.0 = blank_preference_env and ?g3.0 = sample_guide
      and ?query3.0 = "''i like food''" and content = ?content]
    run1 cs1 run2 cs2 h3 c3
  show ?thesis
    by simp
qed

theorem session_memory_lifecycle_counterexample:
  "fst (handle_follow_up sample_env recommended_guide ''how much is it'') = Inr ''It is cheap'' \<and>
   last_response recommended_guide = Some ''Go to Joe Pizza'' \<and>
   last_response (snd (handle_follow_up sample_env recommended_guide ''how much is it''))
     = Some ''Go to Joe Pizza'' \<and>
   fst (get_recommendations blank_preference_env sample_guide ''i like food'')
     = Inr (preference_noted []) \<and>
   last_classification sample_guide = None \<and>
   last_classification (snd (get_recommendations blank_preference_env sample_guide ''i like food''))
     = Some [(''category'', []), (''intent'', []), (''key_terms'', []),
             (''is_preference'', ''yes''), (''preference_type'', ''cuisine''),
             (''preference_value'', []), (''is_generic_food_question'', ''none'')]"
  by code_simp

subsection \<open>The plan\<close>

lemma plan_invariant_cong:
  "plan g' = plan g \<Longrightarrow> plan_file g' = plan_file g \<Longrightarrow> plan_invariant low g
     \<Longrightarrow> plan_invariant low g'"
  by (simp add: plan_invariant_def)

lemma any_same_name_unique:
  assumes "list_all (\<lambda>v. \<not> isl (entry_name low v)) vs"
  shows "any_same_name low n vs = Inr (Inr n \<in> set (map (entry_name low) vs))"
  using assms
proof (induction vs)
  case Nil
  then show ?case by simp
next
  case (Cons v vs)
  then show ?case by (cases "entry_name low v") auto
qed

lemma entry_name_venue_entry:
  "entry_name low (venue_entry env venue_info ctx) = Inr (low (get_default venue_info ''name'' []))"
proof -
  have "map_of (map (\<lambda>p. (fst p, JStr (snd p))) venue_info) ''name''
      = map_option JStr (map_of venue_info ''name'')"
    by (induction venue_info) auto
  then show ?thesis
    by (simp add: venue_entry_def get_default_def map_of_setitem split: option.splits)
qed

lemma try_add_invariant:
  assumes "plan g = JObj [(''venues'', JArr vs)]" and "names_unique (lower env) vs"
    and "plan_file g = Content (plan g)"
  shows "plan_invariant (lower env) (snd (try_add env g ctx))"
proof (cases "complete env (length (calls g)) (ExtractionPrompt ctx)")
  case (Inl e)
  with assms show ?thesis
    by (simp add: try_add_def extract_venue_info_def invoke_def plan_invariant_def)
next
  case (Inr content)
  let ?info = "foldl (extract_line env) [] (split CHR 0x0A content)"
  let ?n = "lower env (get_default ?info ''name'' [])"
  from assms(2) have same: "any_same_name (lower env) ?n vs
      = Inr (Inr ?n \<in> set (map (entry_name (lower env)) vs))"
    by (simp add: any_same_name_unique names_unique_def)
  show ?thesis
  proof (cases "Inr ?n \<in> set (map (entry_name (lower env)) vs)")
    case True
    with assms Inr same show ?thesis
      by (simp add: try_add_def extract_venue_info_def invoke_def plan_invariant_def
          plan_venues_def get_default_def ebind_def)
  next
    case False
    with assms(2) have "names_unique (lower env) (vs @ [venue_entry env ?info ctx])"
      by (auto simp: names_unique_def entry_name_venue_entry)
    with assms Inr same False show ?thesis
      by (simp add: try_add_def extract_venue_info_def invoke_def plan_invariant_def
          plan_venues_def get_default_def ebind_def append_venue_def save_plan_def)
  qed
qed

lemma add_to_plan_invariant:
  assumes "plan_invariant (lower env) g"
  shows "plan_invariant (lower env) (snd (add_to_plan env g))"
proof -
  from assms obtain vs where "plan g = JObj [(''venues'', JArr vs)]"
    "names_unique (lower env) vs" "plan_file g = Content (plan g)"
    by (auto simp: plan_invariant_def)
  from try_add_invariant [OF this] assms show ?thesis
    by (simp add: add_to_plan_def case_prod_beta print_error_def plan_invariant_def
        split: option.splits sum.splits)
qed

lemma classify_query_frame:
  "plan (snd (classify_query env g q)) = plan g"
  "plan_file (snd (classify_query env g q)) = plan_file g"
  "last_response (snd (classify_query env g q)) = last_response g"
  by (simp_all add: classify_query_snd)

lemma is_follow_up_question_frame:
  "plan (snd (is_follow_up_question env g q)) = plan g"
  "plan_file (snd (is_follow_up_question env g q)) = plan_file g"
  unfolding is_follow_up_question_def
  by (simp_all add: case_prod_beta classify_query_frame split: sum.splits)

lemma get_recommendations_invariant:
  assumes "plan_invariant (lower env) g"
  shows "plan_invariant (lower env) (snd (get_recommendations env g q))"
proof -
  obtain r g' where run: "get_recommendations env g q = (r, g')"
    by (cases "get_recommendations env g q")
  from run have "plan_invariant (lower env) g'"
  proof (cases rule: get_recommendations_paths)
    case plan_add
    with assms show ?thesis by (simp add: add_to_plan_invariant)
  next
    case no_search
    with assms show ?thesis by (auto intro: plan_invariant_cong)
  next
    case (recommend content)
    from recommend(3) have "g' = snd (recommend env
           (g\<lparr>calls := calls g @ [Invoke (ClassificationPrompt q)],
              last_classification := Some (parse_classification env content)\<rparr>)
           (parse_classification env content) q)"
      by (metis snd_conv)
    then have "plan g' = plan g" "plan_file g' = plan_file g"
      by (simp_all add: recommend_frame)
    with assms show ?thesis by (simp add: plan_invariant_def)
  qed
  with run show ?thesis by simp
qed

lemma handle_follow_up_invariant:
  assumes "plan_invariant (lower env) g"
  shows "plan_invariant (lower env) (snd (handle_follow_up env g q))"
proof (cases "is_plan_add env q")
  case True
  with assms show ?thesis
    by (simp add: handle_follow_up_def case_prod_beta add_to_plan_invariant)
next
  case False
  then have "plan (snd (handle_follow_up env g q)) = plan g"
    "plan_file (snd (handle_follow_up env g q)) = plan_file g"
    by (simp_all add: handle_follow_up_unfold split: option.splits sum.splits)
  with assms show ?thesis by (simp add: plan_invariant_def)
qed

lemma respond_invariant:
  assumes "plan_invariant (lower env) g"
  shows "plan_invariant (lower env) (snd (respond env g u))"
proof -
  have "plan_invariant (lower env) (snd (is_follow_up_question env g u))"
    using assms by (auto intro: plan_invariant_cong simp: is_follow_up_question_frame)
  with assms show ?thesis
    unfolding respond_def
    by (auto simp: case_prod_beta add_to_plan_invariant handle_follow_up_invariant
        get_recommendations_invariant split: sum.splits bool.splits)
qed

lemma print_line_invariant: "plan_invariant low (print_line g s) = plan_invariant low g"
  by (simp add: plan_invariant_def print_line_def)

lemma get_plan_summary_invariant:
  "plan_invariant low g \<Longrightarrow> plan_invariant low (snd (get_plan_summary env g))"
  by (auto intro: plan_invariant_cong simp: get_plan_summary_frame)

lemma generate_day_plan_invariant:
  "plan_invariant low g \<Longrightarrow> plan_invariant low (snd (generate_day_plan env g))"
  by (auto intro: plan_invariant_cong simp: generate_day_plan_frame)

lemma leave_invariant:
  assumes "plan_invariant low g"
  shows "plan_invariant low (snd (leave env g))"
  using assms unfolding leave_def
  by (auto simp: case_prod_beta print_line_invariant get_plan_summary_invariant
      generate_day_plan_invariant split: sum.splits)

lemma turn_invariant:
  assumes "plan_invariant (lower env) g"
  shows "plan_invariant (lower env) (snd (turn env g line))"
  using assms unfolding turn_def Let_def
  by (auto simp: case_prod_beta print_line_invariant get_plan_summary_invariant
      leave_invariant respond_invariant split: sum.splits)

lemma init_invariant:
  "plan_f = Missing \<or> plan_f = Corrupt \<Longrightarrow> init prefs_f plan_f = Inr g \<Longrightarrow> plan_invariant low g"
  by (auto simp: init_def ebind_def load_plan_def load_preferences_def save_plan_def
      save_preferences_def plan_invariant_def empty_plan_def names_unique_def
      split: stored.splits)

lemma restart_invariant:
  "plan_invariant low g \<Longrightarrow> init prefs_f (plan_file g) = Inr g' \<Longrightarrow> plan_invariant low g'"
  by (auto simp: init_def ebind_def load_plan_def load_preferences_def save_plan_def
      save_preferences_def plan_invariant_def split: stored.splits)

lemma reachable_invariant: "reachable low g \<Longrightarrow> plan_invariant low g"
proof (induction rule: reachable.induct)
  case (fresh plan_f prefs_f g)
  then show ?case by (rule init_invariant)
next
  case (restart g prefs_f g')
  then show ?case by (simp add: restart_invariant)
next
  case (after_turn g env line)
  then show ?case by (auto simp: turn_invariant)
next
  case (after_add_to_plan g env)
  then show ?case by (auto simp: add_to_plan_invariant)
next
  case (after_get_recommendations g env q)
  then show ?case by (auto simp: get_recommendations_invariant)
next
  case (after_handle_follow_up g env q)
  then show ?case by (auto simp: handle_follow_up_invariant)
next
  case (after_is_follow_up_question g env q)
  then show ?case by (auto intro: plan_invariant_cong simp: is_follow_up_question_frame)
next
  case (after_get_plan_summary g env)
  then show ?case by (simp add: get_plan_summary_invariant)
next
  case (after_generate_day_plan g env)
  then show ?case by (simp add: generate_day_plan_invariant)
next
  case (after_update_preference g t v g')
  then show ?case by (auto intro: plan_invariant_cong dest: update_preference_frame(5,6))
qed

text \<open>
  C2. Under a runtime whose \<open>str.lower()\<close> is \<open>lower env\<close>, in every reachable state the
  plan is \<open>{"venues": [...]}\<close> and no two of its entries have the same lower-cased name (an
  entry with no name counting as the empty name). When add\_to\_plan extracts a venue
  whose lower-cased name is that of an entry, it returns the already-in-plan message and
  leaves the plan and the plan file as they were.
\<close>

theorem plan_names_unique:
  assumes "reachable (lower env) g"
  shows "\<exists>vs. plan g = JObj [(''venues'', JArr vs)] \<and> names_unique (lower env) vs \<and>
     (last_context g = Some ctx \<and> ctx \<noteq> [] \<and>
      fst (extract_venue_info env g ctx) = Inr venue_info \<and>
      Inr (lower env (get_default venue_info ''name'' []))
        \<in> set (map (entry_name (lower env)) vs) \<longrightarrow>
        fst (add_to_plan env g) =
          get_default venue_info ''name'' ''This venue'' @ '' is already in your plan!'' \<and>
        plan (snd (add_to_plan env g)) = plan g \<and>
        plan_file (snd (add_to_plan env g)) = plan_file g)"
proof -
  from reachable_invariant [OF assms] obtain vs where
    p: "plan g = JObj [(''venues'', JArr vs)]" and u: "names_unique (lower env) vs"
    by (auto simp: plan_invariant_def)
  have "fst (add_to_plan env g) =
          get_default venue_info ''name'' ''This venue'' @ '' is already in your plan!'' \<and>
        plan (snd (add_to_plan env g)) = plan g \<and>
        plan_file (snd (add_to_plan env g)) = plan_file g"
    if c: "last_context g = Some ctx" "ctx \<noteq> []"
      and e: "fst (extract_venue_info env g ctx) = Inr venue_info"
      and n: "Inr (lower env (get_default venue_info ''name'' []))
                \<in> set (map (entry_name (lower env)) vs)"
  proof -
    from u have "any_same_name (lower env) (lower env (get_default venue_info ''name'' [])) vs
        = Inr True"
      using n by (simp add: any_same_name_unique names_unique_def)
    with c e p show ?thesis
      by (auto simp: add_to_plan_def try_add_def extract_venue_info_def invoke_def
          plan_venues_def get_default_def ebind_def split: sum.splits)
  qed
  with p u show ?thesis
    by blast
qed

theorem plan_names_unique_witness:
  "reachable (lower shouting_env) planned_guide \<and>
   last_context planned_guide = Some (join context_separator [''Joe Pizza, 7 Carmine St'', ''Other'']) \<and>
   fst (extract_venue_info shouting_env planned_guide
          (join context_separator [''Joe Pizza, 7 Carmine St'', ''Other'']))
     = Inr [(''name'', ''JOE PIZZA'')] \<and>
   (\<exists>vs. plan planned_guide = JObj [(''venues'', JArr vs)] \<and>
         names_unique (lower shouting_env) vs \<and>
         Inr (lower shouting_env ''JOE PIZZA'') \<in> set (map (entry_name (lower shouting_env)) vs)) \<and>
   fst (add_to_plan shouting_env planned_guide) = ''JOE PIZZA is already in your plan!'' \<and>
   plan (snd (add_to_plan shouting_env planned_guide)) = plan planned_guide \<and>
   plan_file (snd (add_to_plan shouting_env planned_guide)) = plan_file planned_guide"
proof -
  let ?ctx = "join context_separator [''Joe Pizza, 7 Carmine St'', ''Other'']"
  let ?entry = "JObj [(''name'', JStr ''Joe Pizza''), (''location'', JStr ''7 Carmine St''),
                     (''added_at'', JStr ''2024-05-01T10:00:00''), (''context'', JStr ?ctx)]"
  have low: "lower sample_env = lower shouting_env"
    by (simp add: shouting_env_def)
  have start: "init (Content (JObj [(''cuisine'', JStr ''mexican'')])) Missing = Inr sample_guide"
    by code_simp
  have "reachable (lower shouting_env) sample_guide"
    using start by (intro reachable.fresh) simp_all
  then have "reachable (lower shouting_env) recommended_guide"
    unfolding recommended_guide_def using low by (intro reachable.after_get_recommendations) simp_all
  then have reach: "reachable (lower shouting_env) planned_guide"
    unfolding planned_guide_def using low by (intro reachable.after_add_to_plan) simp_all
  have c: "last_context planned_guide = Some ?ctx"
    by code_simp
  have ne: "?ctx \<noteq> []"
    by code_simp
  have e: "fst (extract_venue_info shouting_env planned_guide ?ctx) = Inr [(''name'', ''JOE PIZZA'')]"
    by code_simp
  have p: "plan planned_guide = JObj [(''venues'', JArr [?entry])]"
    by code_simp
  have n: "entry_name (lower shouting_env) ?entry = Inr (lower shouting_env ''JOE PIZZA'')"
    by code_simp
  have d: "get_default [(''name'', ''JOE PIZZA'')] ''name'' [] = ''JOE PIZZA''"
    "get_default [(''name'', ''JOE PIZZA'')] ''name'' ''This venue'' = ''JOE PIZZA''"
    by (simp_all add: get_default_def)
  from plan_names_unique [OF reach, of ?ctx "[(''name'', ''JOE PIZZA'')]"]
    reach c ne e p n d
  show ?thesis
    by auto
qed

subsection \<open>The main loop\<close>

lemma only_asks_refl: "only_asks u g g"
  by (simp add: only_asks_def)

lemma only_asks_trans: "only_asks u g g' \<Longrightarrow> only_asks u g' g'' \<Longrightarrow> only_asks u g g''"
  unfolding only_asks_def by (metis append.assoc list_all_append)

lemma only_asks_add_to_plan: "only_asks u g (snd (add_to_plan env g))"
  unfolding only_asks_def
  by (simp add: add_to_plan_frame extraction_calls_def split: option.splits)

lemma only_asks_get_plan_summary: "only_asks u g (snd (get_plan_summary env g))"
  unfolding only_asks_def get_plan_summary_def invoke_def
  by (simp add: print_error_def split: sum.splits)

lemma only_asks_generate_day_plan: "only_asks u g (snd (generate_day_plan env g))"
  unfolding only_asks_def generate_day_plan_def invoke_def
  by (simp add: print_error_def split: sum.splits)

lemma only_asks_is_follow_up_question: "only_asks u g (snd (is_follow_up_question env g u))"
  unfolding only_asks_def is_follow_up_question_def
  by (simp add: case_prod_beta classify_query_snd split: sum.splits)

lemma only_asks_handle_follow_up: "only_asks u g (snd (handle_follow_up env g u))"
proof (cases "is_plan_add env u")
  case True
  then show ?thesis
    using only_asks_add_to_plan [of u g env]
    by (simp add: handle_follow_up_def case_prod_beta)
next
  case False
  then show ?thesis
    unfolding only_asks_def
    by (auto simp: handle_follow_up_unfold follow_up_prompt_def ebind_def
        split: option.splits sum.splits)
qed

lemma initial_prompt_asks:
  "initial_prompt prefs c ctx query = Inr p \<Longrightarrow> asks_about query (Invoke p)"
  unfolding initial_prompt_def ebind_def by (auto split: sum.splits)

lemma enhanced_query_startswith:
  "enhanced_query env prefs c query = Inr q \<Longrightarrow> startswith q query"
  unfolding enhanced_query_def ebind_def
  by (auto simp: startswith_iff split: sum.splits if_splits)

lemma only_asks_recommend: "only_asks query g (snd (recommend env g c query))"
  unfolding only_asks_def
  by (auto simp: recommend_unfold initial_prompt_asks enhanced_query_startswith
      split: sum.splits)

lemma only_asks_get_recommendations: "only_asks u g (snd (get_recommendations env g u))"
proof -
  obtain r g' where run: "get_recommendations env g u = (r, g')"
    by (cases "get_recommendations env g u")
  from run have "only_asks u g g'"
  proof (cases rule: get_recommendations_paths)
    case plan_add
    then show ?thesis by (simp add: only_asks_add_to_plan)
  next
    case no_search
    then show ?thesis by (simp add: only_asks_def)
  next
    case (recommend content)
    let ?g2 = "g\<lparr>calls := calls g @ [Invoke (ClassificationPrompt u)],
                  last_classification := Some (parse_classification env content)\<rparr>"
    from recommend(3) have "g' = snd (recommend env ?g2 (parse_classification env content) u)"
      by (metis snd_conv)
    then have "only_asks u ?g2 g'"
      by (simp add: only_asks_recommend)
    moreover have "only_asks u g ?g2"
      by (simp add: only_asks_def)
    ultimately show ?thesis
      by (rule only_asks_trans [rotated])
  qed
  with run show ?thesis by simp
qed

lemma only_asks_respond: "only_asks u g (snd (respond env g u))"
proof (cases "u = ''add to plan''")
  case True
  then show ?thesis
    using only_asks_add_to_plan [of u g env] by (simp add: respond_def case_prod_beta)
next
  case False
  let ?g1 = "snd (is_follow_up_question env g u)"
  have 1: "only_asks u g ?g1"
    by (rule only_asks_is_follow_up_question)
  have 2: "only_asks u g (snd (handle_follow_up env ?g1 u))"
    using 1 only_asks_handle_follow_up by (rule only_asks_trans)
  have 3: "only_asks u g (snd (get_recommendations env ?g1 u))"
    using 1 only_asks_get_recommendations by (rule only_asks_trans)
  from False 1 2 3 show ?thesis
    by (simp add: respond_def case_prod_beta split: sum.splits bool.splits)
qed

lemma calls_print_line [simp]: "calls (print_line g s) = calls g"
  by (simp add: print_line_def)

lemma only_asks_print_line: "only_asks u g (print_line g' s) = only_asks u g g'"
  by (simp add: only_asks_def)

lemma only_asks_printed:
  assumes "only_asks u g g1"
  shows "only_asks u g (print_line g1 s)"
  using assms by (simp add: only_asks_def)

lemma only_asks_leave: "only_asks u g (snd (leave env g))"
proof -
  have 1: "only_asks u g (snd (get_plan_summary env (print_line g s)))" for s
    using only_asks_printed [OF only_asks_refl] only_asks_get_plan_summary
    by (rule only_asks_trans)
  have 2: "only_asks u g (snd (generate_day_plan env (print_line (print_line g1 s) s')))"
    if "only_asks u g g1" for g1 s s'
    using only_asks_printed [OF only_asks_printed [OF that]] only_asks_generate_day_plan
    by (rule only_asks_trans)
  show ?thesis
    unfolding leave_def
    by (auto simp: case_prod_beta only_asks_refl only_asks_print_line 1 2 split: sum.splits)
qed

lemma only_asks_turn: "only_asks (lower env (strip env line)) g (snd (turn env g line))"
  unfolding turn_def Let_def
  by (simp add: case_prod_beta only_asks_print_line only_asks_leave only_asks_get_plan_summary
      only_asks_respond split: sum.splits)

lemma respond_plan_add:
  assumes "u = ''add to plan'' \<or> is_plan_add env u"
  shows "respond env g u = (Inr (fst (add_to_plan env g)), snd (add_to_plan env g))"
  using assms
  by (auto simp: respond_def is_follow_up_question_def handle_follow_up_def case_prod_beta)

lemma respond_classifies:
  assumes "u \<noteq> ''add to plan''" and "\<not> is_plan_add env u"
  shows "\<exists>rest. calls (snd (respond env g u)) = calls g @ Invoke (ClassificationPrompt u) # rest \<and>
           list_all (asks_about u) rest"
proof -
  let ?g1 = "g\<lparr>calls := calls g @ [Invoke (ClassificationPrompt u)]\<rparr>"
  have g1: "snd (is_follow_up_question env g u) = ?g1"
    using assms(2)
    by (simp add: is_follow_up_question_def case_prod_beta classify_query_snd split: sum.splits)
  have after: "\<exists>rest. calls g2 = calls g @ Invoke (ClassificationPrompt u) # rest \<and>
      list_all (asks_about u) rest" if "only_asks u ?g1 g2" for g2
    using that by (auto simp: only_asks_def)
  have 1: "\<exists>rest. calls ?g1 = calls g @ Invoke (ClassificationPrompt u) # rest \<and>
      list_all (asks_about u) rest"
    by simp
  have 2: "\<exists>rest. calls (snd (handle_follow_up env ?g1 u))
        = calls g @ Invoke (ClassificationPrompt u) # rest \<and> list_all (asks_about u) rest"
    by (rule after) (rule only_asks_handle_follow_up)
  have 3: "\<exists>rest. calls (snd (get_recommendations env ?g1 u))
        = calls g @ Invoke (ClassificationPrompt u) # rest \<and> list_all (asks_about u) rest"
    by (rule after) (rule only_asks_get_recommendations)
  from assms(1) 1 2 3 show ?thesis
    unfolding respond_def
    by (simp add: case_prod_beta g1 split: sum.splits bool.splits)
qed

text \<open>
  C10. With \<open>u\<close> the line read, stripped and then lower-cased by the runtime, everything a
  round of the main loop does is done on \<open>u\<close>. The commands are matched against \<open>u\<close>: on an
  exit word the round is the farewell, on \<open>show plan\<close> the plan summary, on \<open>add to plan\<close>
  or when \<open>u\<close> holds a plan-add phrase it is add\_to\_plan. In every other round the first
  external call is the classification of exactly \<open>u\<close>. In every round, each external
  call is about \<open>u\<close>: a classification, an initial and a follow-up prompt carry \<open>u\<close> as
  their question, and a retrieval query begins with \<open>u\<close>.
\<close>

theorem input_normalised:
  "(lower env (strip env line1) \<in> set [''quit'', ''exit'', ''bye'', ''done''] \<longrightarrow>
      turn env g line1 = leave env g) \<and>
   (lower env (strip env line2) = ''show plan'' \<longrightarrow>
      turn env g line2 =
        (case get_plan_summary env g of
           (Inl e, g1) \<Rightarrow> (Inl e, g1)
         | (Inr summary, g1) \<Rightarrow> (Inr Continue, print_line g1 (reply summary)))) \<and>
   (lower env (strip env line3) \<notin> set [''quit'', ''exit'', ''bye'', ''done'', ''show plan''] \<and>
    (lower env (strip env line3) = ''add to plan'' \<or> is_plan_add env (lower env (strip env line3)))
      \<longrightarrow>
      turn env g line3 =
        (Inr Continue, print_line (snd (add_to_plan env g)) (reply (fst (add_to_plan env g))))) \<and>
   (lower env (strip env line4)
      \<notin> set [''quit'', ''exit'', ''bye'', ''done'', ''show plan'', ''add to plan''] \<and>
    \<not> is_plan_add env (lower env (strip env line4)) \<longrightarrow>
      (\<exists>rest. calls (snd (turn env g line4)) =
                calls g @ Invoke (ClassificationPrompt (lower env (strip env line4))) # rest \<and>
              list_all (asks_about (lower env (strip env line4))) rest)) \<and>
   (\<exists>cs. calls (snd (turn env g line)) = calls g @ cs \<and>
         list_all (asks_about (lower env (strip env line))) cs)"
proof -
  have 1: "turn env g line1 = leave env g"
    if "lower env (strip env line1) \<in> set [''quit'', ''exit'', ''bye'', ''done'']"
    using that by (simp add: turn_def Let_def)
  have 2: "turn env g line2 =
        (case get_plan_summary env g of
           (Inl e, g1) \<Rightarrow> (Inl e, g1)
         | (Inr summary, g1) \<Rightarrow> (Inr Continue, print_line g1 (reply summary)))"
    if "lower env (strip env line2) = ''show plan''"
    using that by (simp add: turn_def Let_def)
  have 3: "turn env g line3 =
        (Inr Continue, print_line (snd (add_to_plan env g)) (reply (fst (add_to_plan env g))))"
    if "lower env (strip env line3) \<notin> set [''quit'', ''exit'', ''bye'', ''done'', ''show plan'']"
      and "lower env (strip env line3) = ''add to plan''
            \<or> is_plan_add env (lower env (strip env line3))"
    using that(1) respond_plan_add [OF that(2), of g]
    by (simp add: turn_def Let_def)
  have 4: "\<exists>rest. calls (snd (turn env g line4)) =
                calls g @ Invoke (ClassificationPrompt (lower env (strip env line4))) # rest \<and>
              list_all (asks_about (lower env (strip env line4))) rest"
    if c: "lower env (strip env line4)
            \<notin> set [''quit'', ''exit'', ''bye'', ''done'', ''show plan'', ''add to plan'']"
      and n: "\<not> is_plan_add env (lower env (strip env line4))"
  proof -
    from c have "lower env (strip env line4) \<noteq> ''add to plan''"
      by simp
    from respond_classifies [OF this n, of g] c show ?thesis
      by (simp add: turn_def Let_def case_prod_beta split: sum.splits)
  qed
  from 1 2 3 4 only_asks_turn [of env line g] show ?thesis
    unfolding only_asks_def by blast
qed

theorem input_normalised_witness:
  "lower sample_env (strip sample_env ''  EXIT '') = ''exit'' \<and>
   turn sample_env sample_guide ''  EXIT '' = (Inr Break, print_line sample_guide farewell) \<and>
   lower sample_env (strip sample_env '' Show Plan'') = ''show plan'' \<and>
   turn sample_env sample_guide '' Show Plan'' =
     (Inr Continue, print_line sample_guide (reply plan_empty_message)) \<and>
   lower sample_env (strip sample_env ''Please ADD IT TO my plan '') = ''please add it to my plan'' \<and>
   is_plan_add sample_env ''please add it to my plan'' \<and>
   turn sample_env recommended_guide ''Please ADD IT TO my plan '' =
     (Inr Continue, print_line planned_guide (reply ''Added Joe Pizza to your NYC plan!'')) \<and>
   lower sample_env (strip sample_env ''  Where To EAT '') = ''where to eat'' \<and>
   \<not> is_plan_add sample_env ''where to eat'' \<and>
   calls (snd (turn sample_env sample_guide ''  Where To EAT '')) =
     calls sample_guide @
       [Invoke (ClassificationPrompt ''where to eat''),
        Invoke (ClassificationPrompt ''where to eat''),
        Search ''where to eat mexican restaurant'' 4,
        Invoke (InitialPrompt (join context_separator [''Joe Pizza, 7 Carmine St'', ''Other''])
                  ''where to eat'' ''Food and Dining'' ''eat'' []
                  (JObj [(''cuisine'', JStr ''mexican'')]))]"
proof -
  have u1: "lower sample_env (strip sample_env ''  EXIT '') = ''exit''"
    by code_simp
  have l1: "leave sample_env sample_guide = (Inr Break, print_line sample_guide farewell)"
    by code_simp
  have u2: "lower sample_env (strip sample_env '' Show Plan'') = ''show plan''"
    by code_simp
  have s2: "get_plan_summary sample_env sample_guide = (Inr plan_empty_message, sample_guide)"
    by code_simp
  have u3: "lower sample_env (strip sample_env ''Please ADD IT TO my plan '')
      = ''please add it to my plan''"
    by code_simp
  have p3: "is_plan_add sample_env ''please add it to my plan''"
    by code_simp
  have a3: "add_to_plan sample_env recommended_guide
      = (''Added Joe Pizza to your NYC plan!'', planned_guide)"
    by code_simp
  have u4: "lower sample_env (strip sample_env ''  Where To EAT '') = ''where to eat''"
    by code_simp
  have p4: "\<not> is_plan_add sample_env ''where to eat''"
    by code_simp
  have c4: "calls (snd (turn sample_env sample_guide ''  Where To EAT '')) =
     calls sample_guide @
       [Invoke (ClassificationPrompt ''where to eat''),
        Invoke (ClassificationPrompt ''where to eat''),
        Search ''where to eat mexican restaurant'' 4,
        Invoke (InitialPrompt (join context_separator [''Joe Pizza, 7 Carmine St'', ''Other''])
                  ''where to eat'' ''Food and Dining'' ''eat'' []
                  (JObj [(''cuisine'', JStr ''mexican'')]))]"
    by code_simp
  note a = input_normalised [of sample_env "''  EXIT ''" sample_guide "'' Show Plan''" "[]"
      "''  Where To EAT ''" "[]"]
  note b = input_normalised [of sample_env "[]" recommended_guide "[]"
      "''Please ADD IT TO my plan ''" "[]" "[]"]
  from a u1 l1
  have t1: "turn sample_env sample_guide ''  EXIT '' = (Inr Break, print_line sample_guide farewell)"
    by simp
  from a u2 s2
  have t2: "turn sample_env sample_guide '' Show Plan'' =
       (Inr Continue, print_line sample_guide (reply plan_empty_message))"
    by simp
  from b u3 p3 a3
  have t3: "turn sample_env recommended_guide ''Please ADD IT TO my plan '' =
     (Inr Continue, print_line planned_guide (reply ''Added Joe Pizza to your NYC plan!''))"
    by simp
  from a u4 p4
  have t4: "\<exists>rest. calls (snd (turn sample_env sample_guide ''  Where To EAT '')) =
                calls sample_guide @ Invoke (ClassificationPrompt ''where to eat'') # rest"
    by auto
  from u1 u2 u3 p3 u4 p4 c4 t1 t2 t3 t4 show ?thesis
    by simp
qed

end
